theory Spec2Isabelle
  imports Main
begin

section \<open>Python strings\<close>

text \<open>
  A Python \<open>str\<close> is modelled as a \<open>string\<close>: a list of 8-bit characters, read as the code
  points U+0000 .. U+00FF. The character predicates below are the ones of CPython on that
  range: \<open>isspace\<close> is \<open>str.isspace\<close> (the class \<open>\s\<close> and what \<open>str.strip\<close> removes),
  \<open>isdigit\<close> is the class \<open>\d\<close>, \<open>isword\<close> is the class \<open>\w\<close>, and \<open>lower_char\<close> is
  \<open>str.lower\<close> on one character. Code points above U+00FF are outside the model.
\<close>

definition code_point :: "char \<Rightarrow> nat" where
  "code_point c = of_char c"

definition isdigit :: "char \<Rightarrow> bool" where
  "isdigit c = (48 \<le> code_point c \<and> code_point c \<le> 57)"

definition isspace :: "char \<Rightarrow> bool" where
  "isspace c = ((9 \<le> code_point c \<and> code_point c \<le> 13) \<or> (28 \<le> code_point c \<and> code_point c \<le> 32) \<or>
     code_point c = 133 \<or> code_point c = 160)"

definition isupper :: "char \<Rightarrow> bool" where
  "isupper c = ((65 \<le> code_point c \<and> code_point c \<le> 90) \<or>
     (192 \<le> code_point c \<and> code_point c \<le> 222 \<and> code_point c \<noteq> 215))"

definition islower :: "char \<Rightarrow> bool" where
  \<comment> \<open>the lower-case letters whose upper-case form is again below U+0100\<close>
  "islower c = ((97 \<le> code_point c \<and> code_point c \<le> 122) \<or>
     (224 \<le> code_point c \<and> code_point c \<le> 254 \<and> code_point c \<noteq> 247))"

definition isword :: "char \<Rightarrow> bool" where
  "isword c = ((48 \<le> code_point c \<and> code_point c \<le> 57) \<or> (65 \<le> code_point c \<and> code_point c \<le> 90) \<or>
     code_point c = 95 \<or> (97 \<le> code_point c \<and> code_point c \<le> 122) \<or>
     code_point c = 170 \<or> code_point c = 178 \<or> code_point c = 179 \<or> code_point c = 181 \<or>
     code_point c = 185 \<or> code_point c = 186 \<or> (188 \<le> code_point c \<and> code_point c \<le> 190) \<or>
     (192 \<le> code_point c \<and> code_point c \<le> 214) \<or> (216 \<le> code_point c \<and> code_point c \<le> 246) \<or>
     248 \<le> code_point c)"

definition lower_char :: "char \<Rightarrow> char" where
  "lower_char c = (if isupper c then char_of (code_point c + 32) else c)"

definition upper_char :: "char \<Rightarrow> char" where
  "upper_char c = (if islower c then char_of (code_point c - 32) else c)"

definition lower :: "string \<Rightarrow> string" where
  \<comment> \<open>\<open>s.lower()\<close>\<close>
  "lower s = map lower_char s"

definition capitalize :: "string \<Rightarrow> string" where
  \<comment> \<open>\<open>s.capitalize()\<close>: first character upper-cased, the others lower-cased\<close>
  "capitalize s = (case s of [] \<Rightarrow> [] | c # cs \<Rightarrow> upper_char c # map lower_char cs)"

definition strip :: "string \<Rightarrow> string" where
  \<comment> \<open>\<open>s.strip()\<close>\<close>
  "strip s = rev (dropWhile isspace (rev (dropWhile isspace s)))"

fun startswith :: "string \<Rightarrow> string \<Rightarrow> bool" where
  \<comment> \<open>\<open>s.startswith(w)\<close>, as \<open>startswith w s\<close>\<close>
  "startswith [] s = True"
| "startswith (a # w) [] = False"
| "startswith (a # w) (c # s) = (a = c \<and> startswith w s)"

fun contains :: "string \<Rightarrow> string \<Rightarrow> bool" where
  \<comment> \<open>\<open>w in s\<close>, as \<open>contains w s\<close>\<close>
  "contains w [] = (w = [])"
| "contains w (c # s) = (startswith w (c # s) \<or> contains w s)"

fun join :: "string \<Rightarrow> string list \<Rightarrow> string" where
  \<comment> \<open>\<open>sep.join(xs)\<close>\<close>
  "join sep [] = []"
| "join sep [x] = x"
| "join sep (x # y # xs) = x @ sep @ join sep (y # xs)"

definition truthy :: "string option \<Rightarrow> bool" where
  \<comment> \<open>the truth value of an \<open>Optional[str]\<close>: neither \<open>None\<close> nor the empty string\<close>
  "truthy v = (case v of None \<Rightarrow> False | Some s \<Rightarrow> s \<noteq> [])"

text \<open>Bit-level equations for the character functions, used when a concrete text is evaluated.\<close>

lemma isdigit_code [code]:
  "isdigit (Char b0 b1 b2 b3 b4 b5 b6 b7) =
     (\<not> b7 \<and> \<not> b6 \<and> b5 \<and> b4 \<and> (\<not> b3 \<or> (\<not> b2 \<and> \<not> b1)))"
  by (cases b0; cases b1; cases b2; cases b3; cases b4; cases b5; cases b6; cases b7;
      simp add: isdigit_def code_point_def)

lemma isspace_code [code]:
  "isspace (Char b0 b1 b2 b3 b4 b5 b6 b7) =
     (if b7 then \<not> b6 \<and> \<not> b4 \<and> \<not> b3 \<and> \<not> b1 \<and> (b5 \<noteq> b2) \<and> (b2 = b0)
      else \<not> b6 \<and> (if b5 then \<not> b4 \<and> \<not> b3 \<and> \<not> b2 \<and> \<not> b1 \<and> \<not> b0
                      else if b4 then b3 \<and> b2
                      else b3 \<and> (if b2 then \<not> b1 else b1 \<or> b0)))"
  by (cases b0; cases b1; cases b2; cases b3; cases b4; cases b5; cases b6; cases b7;
      simp add: isspace_def code_point_def)

lemma isupper_code [code]:
  "isupper (Char b0 b1 b2 b3 b4 b5 b6 b7) =
     (b6 \<and> \<not> b5 \<and>
      (if b7 then \<not> (b4 \<and> b3 \<and> b2 \<and> b1 \<and> b0) \<and> \<not> (b4 \<and> \<not> b3 \<and> b2 \<and> b1 \<and> b0)
       else (b0 \<or> b1 \<or> b2 \<or> b3 \<or> b4) \<and> \<not> (b4 \<and> b3 \<and> (b2 \<or> (b1 \<and> b0)))))"
  by (cases b0; cases b1; cases b2; cases b3; cases b4; cases b5; cases b6; cases b7;
      simp add: isupper_def code_point_def)

lemma islower_code [code]:
  "islower (Char b0 b1 b2 b3 b4 b5 b6 b7) =
     (b6 \<and> b5 \<and>
      (if b7 then \<not> (b4 \<and> b3 \<and> b2 \<and> b1 \<and> b0) \<and> \<not> (b4 \<and> \<not> b3 \<and> b2 \<and> b1 \<and> b0)
       else (b0 \<or> b1 \<or> b2 \<or> b3 \<or> b4) \<and> \<not> (b4 \<and> b3 \<and> (b2 \<or> (b1 \<and> b0)))))"
  by (cases b0; cases b1; cases b2; cases b3; cases b4; cases b5; cases b6; cases b7;
      simp add: islower_def code_point_def)

lemma isword_code [code]:
  "isword (Char b0 b1 b2 b3 b4 b5 b6 b7) =
     (isdigit (Char b0 b1 b2 b3 b4 b5 b6 b7) \<or> isupper (Char b0 b1 b2 b3 b4 b5 b6 b7) \<or>
      islower (Char b0 b1 b2 b3 b4 b5 b6 b7) \<or>
      (if b7 then Char b0 b1 b2 b3 b4 b5 b6 b7 \<in> set [CHR 0xAA, CHR 0xB2, CHR 0xB3, CHR 0xB5, CHR 0xB9,
                    CHR 0xBA, CHR 0xBC, CHR 0xBD, CHR 0xBE, CHR 0xDF, CHR 0xFF]
       else b6 \<and> \<not> b5 \<and> b4 \<and> b3 \<and> b2 \<and> b1 \<and> b0))"
  by (cases b0; cases b1; cases b2; cases b3; cases b4; cases b5; cases b6; cases b7;
      simp add: isword_def isdigit_def isupper_def islower_def code_point_def)

lemma lower_char_code [code]:
  "lower_char (Char b0 b1 b2 b3 b4 b5 b6 b7) =
     (if isupper (Char b0 b1 b2 b3 b4 b5 b6 b7) then Char b0 b1 b2 b3 b4 True b6 b7
      else Char b0 b1 b2 b3 b4 b5 b6 b7)"
  by (cases b0; cases b1; cases b2; cases b3; cases b4; cases b5; cases b6; cases b7;
      simp add: lower_char_def isupper_def code_point_def char_of_eq_iff)

lemma upper_char_code [code]:
  "upper_char (Char b0 b1 b2 b3 b4 b5 b6 b7) =
     (if islower (Char b0 b1 b2 b3 b4 b5 b6 b7) then Char b0 b1 b2 b3 b4 False b6 b7
      else Char b0 b1 b2 b3 b4 b5 b6 b7)"
  by (cases b0; cases b1; cases b2; cases b3; cases b4; cases b5; cases b6; cases b7;
      simp add: upper_char_def islower_def code_point_def char_of_eq_iff)


section \<open>Regular expressions\<close>

text \<open>
  The patterns of the source are given to Python's \<open>re.search\<close>. A pattern is modelled by its
  syntax tree, and matching by a backtracking matcher that lists the ways a pattern can
  match at a position in the order in which Python tries them (an alternative before the
  next one; a greedy repetition the longest way first, a lazy one the shortest first), so
  that the head of the list is the match Python reports.

  A class item is a character, one of the ranges \<open>A-Z\<close>, \<open>a-z\<close>, \<open>0-9\<close>, or one of the classes
  \<open>\d\<close> and \<open>\s\<close>. A literal character of a pattern is the class of that one character.
\<close>

datatype citem = Ch char | RngUpper | RngLower | RngDigit | Digit | Space

fun item_has :: "citem \<Rightarrow> char \<Rightarrow> bool" where
  "item_has (Ch a) c = (c = a)"
| "item_has RngUpper c = (65 \<le> code_point c \<and> code_point c \<le> 90)"
| "item_has RngLower c = (97 \<le> code_point c \<and> code_point c \<le> 122)"
| "item_has RngDigit c = (48 \<le> code_point c \<and> code_point c \<le> 57)"
| "item_has Digit c = isdigit c"
| "item_has Space c = isspace c"

definition in_class :: "bool \<Rightarrow> citem list \<Rightarrow> char \<Rightarrow> bool" where
  \<comment> \<open>with \<open>re.IGNORECASE\<close> the lower-cased character, or its upper-case form, is looked up\<close>
  "in_class ic cl c =
     (if ic then list_ex (\<lambda>i. item_has i (lower_char c)) cl \<or>
                 list_ex (\<lambda>i. item_has i (upper_char (lower_char c))) cl
      else list_ex (\<lambda>i. item_has i c) cl)"

datatype regex =
    Sym "citem list"      \<comment> \<open>one character of a class; \<open>Sym []\<close> matches nothing\<close>
  | AnyChar               \<comment> \<open>\<open>.\<close>: any character but the newline\<close>
  | WordB                 \<comment> \<open>\<open>\b\<close>\<close>
  | Bol                   \<comment> \<open>\<open>^\<close>\<close>
  | Eol                   \<comment> \<open>\<open>$\<close>\<close>
  | Eps                   \<comment> \<open>the empty pattern\<close>
  | Seq regex regex
  | Alt regex regex       \<comment> \<open>\<open>a|b\<close>\<close>
  | Star regex            \<comment> \<open>\<open>a*\<close>\<close>
  | LazyStar regex        \<comment> \<open>\<open>a*?\<close>\<close>
  | Group nat regex       \<comment> \<open>the capturing group of that number\<close>

text \<open>
  A matcher state: the character before the position (\<open>None\<close> at the start of the text), the
  text from the position on, and the groups captured so far (the latest first).
\<close>

type_synonym mstate = "char option \<times> string \<times> (nat \<times> string) list"

fun rest_of :: "mstate \<Rightarrow> string" where
  "rest_of (p, r, g) = r"

text \<open>
  Repetition. Every further round must consume a character: none of the source's patterns
  repeats a pattern that can match the empty string.
\<close>

function star :: "bool \<Rightarrow> (mstate \<Rightarrow> mstate list) \<Rightarrow> mstate \<Rightarrow> mstate list" where
  "star greedy f s =
     (let more = concat (map (\<lambda>s'. if length (rest_of s') < length (rest_of s)
                                     then star greedy f s' else []) (f s))
      in if greedy then more @ [s] else s # more)"
  by pat_completeness auto
termination
  by (relation "measure (\<lambda>(g, f, s). length (rest_of s))") auto

declare star.simps [simp del]

definition at_boundary :: "char option \<Rightarrow> string \<Rightarrow> bool" where
  "at_boundary p r = ((case p of None \<Rightarrow> False | Some c \<Rightarrow> isword c) \<noteq>
                      (case r of [] \<Rightarrow> False | c # _ \<Rightarrow> isword c))"

fun set_group :: "nat \<Rightarrow> mstate \<Rightarrow> mstate \<Rightarrow> mstate" where
  "set_group n (p, r, g) (p', r', g') = (p', r', (n, take (length r - length r') r) # g')"

primrec matches :: "bool \<Rightarrow> regex \<Rightarrow> mstate \<Rightarrow> mstate list" where
  "matches ic (Sym cl) = (\<lambda>(p, r, g). case r of [] \<Rightarrow> []
       | c # cs \<Rightarrow> if in_class ic cl c then [(Some c, cs, g)] else [])"
| "matches ic AnyChar = (\<lambda>(p, r, g). case r of [] \<Rightarrow> []
       | c # cs \<Rightarrow> if c \<noteq> CHR 0x0A then [(Some c, cs, g)] else [])"
| "matches ic WordB = (\<lambda>(p, r, g). if at_boundary p r then [(p, r, g)] else [])"
| "matches ic Bol = (\<lambda>(p, r, g). if p = None then [(p, r, g)] else [])"
| "matches ic Eol = (\<lambda>(p, r, g). if r = [] \<or> r = [CHR 0x0A] then [(p, r, g)] else [])"
| "matches ic Eps = (\<lambda>s. [s])"
| "matches ic (Seq a b) = (\<lambda>s. concat (map (matches ic b) (matches ic a s)))"
| "matches ic (Alt a b) = (\<lambda>s. matches ic a s @ matches ic b s)"
| "matches ic (Star a) = star True (matches ic a)"
| "matches ic (LazyStar a) = star False (matches ic a)"
| "matches ic (Group n a) = (\<lambda>s. map (set_group n s) (matches ic a s))"

text \<open>A match object: \<open>m.start()\<close>, \<open>m.end()\<close>, \<open>m.group(0)\<close> and the captured groups.\<close>

record re_match =
  m_start :: nat
  m_end :: nat
  m_text :: string
  m_groups :: "(nat \<times> string) list"

text \<open>\<open>re.search\<close>: the first position, from the left, at which the pattern matches.\<close>

fun search_from :: "bool \<Rightarrow> regex \<Rightarrow> nat \<Rightarrow> char option \<Rightarrow> string \<Rightarrow> re_match option" where
  "search_from ic r i p s =
     (case matches ic r (p, s, []) of
        (p', s', g) # _ \<Rightarrow>
          Some \<lparr>m_start = i, m_end = i + (length s - length s'),
                m_text = take (length s - length s') s, m_groups = g\<rparr>
      | [] \<Rightarrow> (case s of [] \<Rightarrow> None | c # cs \<Rightarrow> search_from ic r (Suc i) (Some c) cs))"

definition re_search :: "bool \<Rightarrow> regex \<Rightarrow> string \<Rightarrow> re_match option" where
  \<comment> \<open>\<open>re.search(r, s, re.IGNORECASE)\<close> when \<open>ic\<close>, \<open>re.search(r, s)\<close> otherwise\<close>
  "re_search ic r s = search_from ic r 0 None s"

fun group_count :: "regex \<Rightarrow> nat" where
  "group_count (Seq a b) = max (group_count a) (group_count b)"
| "group_count (Alt a b) = max (group_count a) (group_count b)"
| "group_count (Star a) = group_count a"
| "group_count (LazyStar a) = group_count a"
| "group_count (Group n a) = max n (group_count a)"
| "group_count _ = 0"

definition m_group :: "re_match \<Rightarrow> nat \<Rightarrow> string option" where
  \<comment> \<open>\<open>m.group(n)\<close>; \<open>None\<close> for a group that took no part in the match\<close>
  "m_group m n = (if n = 0 then Some (m_text m) else map_of (m_groups m) n)"

definition groups :: "regex \<Rightarrow> re_match \<Rightarrow> string option list" where
  \<comment> \<open>\<open>m.groups()\<close> for a match of the pattern \<open>r\<close>\<close>
  "groups r m = map (m_group m) [1..<Suc (group_count r)]"

text \<open>Notation for writing the patterns down.\<close>

definition lit :: "string \<Rightarrow> regex" where
  "lit w = foldr (\<lambda>c r. Seq (Sym [Ch c]) r) w Eps"

definition cat :: "regex list \<Rightarrow> regex" where
  "cat rs = foldr Seq rs Eps"

definition alts :: "regex list \<Rightarrow> regex" where
  "alts rs = (case rs of [] \<Rightarrow> Sym [] | _ \<Rightarrow> foldr Alt (butlast rs) (last rs))"

definition words :: "string list \<Rightarrow> regex" where
  \<comment> \<open>\<open>(?:w1|w2|...)\<close>\<close>
  "words ws = alts (map lit ws)"

definition plus_re :: "regex \<Rightarrow> regex" where
  \<comment> \<open>\<open>a+\<close>\<close>
  "plus_re r = Seq r (Star r)"

definition opt_re :: "regex \<Rightarrow> regex" where
  \<comment> \<open>\<open>a?\<close>\<close>
  "opt_re r = Alt r Eps"

definition num :: regex where
  \<comment> \<open>\<open>\d+(?:\.\d+)?\<close>\<close>
  "num = Seq (plus_re (Sym [Digit])) (opt_re (Seq (Sym [Ch CHR ''.'']) (plus_re (Sym [Digit]))))"

definition ws :: regex where
  \<comment> \<open>\<open>\s*\<close>\<close>
  "ws = Star (Sym [Space])"

lemma item_has_code [code]:
  "item_has (Ch a) c = (c = a)"
  "item_has RngUpper (Char b0 b1 b2 b3 b4 b5 b6 b7) = (\<not> b7 \<and> isupper (Char b0 b1 b2 b3 b4 b5 b6 b7))"
  "item_has RngLower (Char b0 b1 b2 b3 b4 b5 b6 b7) = (\<not> b7 \<and> islower (Char b0 b1 b2 b3 b4 b5 b6 b7))"
  "item_has RngDigit c = isdigit c"
  "item_has Digit c = isdigit c"
  "item_has Space c = isspace c"
  by (simp_all add: isdigit_def,
      (cases b0; cases b1; cases b2; cases b3; cases b4; cases b5; cases b6; cases b7;
       simp add: isupper_def islower_def code_point_def)+)


section \<open>Exceptions\<close>

text \<open>
  A call either returns a value or raises. The two handlers of the source tell
  \<open>requests.exceptions.RequestException\<close> (and its subclasses) from every other \<open>Exception\<close>;
  both print \<open>str(e)\<close>, which is the string carried here.
\<close>

datatype exn = RequestException string | Exception string

type_synonym 'a raising = "exn + 'a"

definition quote :: char where
  "quote = CHR 0x27"

definition dquote :: char where
  "dquote = CHR 0x22"

definition none_has_no_strip :: exn where
  \<comment> \<open>the \<open>AttributeError\<close> of \<open>None.strip()\<close>\<close>
  "none_has_no_strip = Exception ([quote] @ ''NoneType'' @ [quote] @ '' object has no attribute '' @
                                  [quote] @ ''strip'' @ [quote])"

definition group1_strip :: "re_match \<Rightarrow> string raising" where
  \<comment> \<open>\<open>match.group(1).strip()\<close>\<close>
  "group1_strip m = (case m_group m 1 of None \<Rightarrow> Inl none_has_no_strip | Some g \<Rightarrow> Inr (strip g))"

section \<open>The parsed page\<close>

text \<open>
  The document that \<open>BeautifulSoup(content, 'html.parser')\<close> builds: a tree of tags and text
  nodes. \<open>descendants\<close> lists the nodes below a node in document order, which is the order
  of \<open>find_all\<close>; \<open>get_text\<close> joins the text nodes below a node.
\<close>

datatype node = NavigableString string | Tag string "node list"

fun descendants :: "node \<Rightarrow> node list" where
  "descendants (NavigableString s) = []"
| "descendants (Tag name cs) = concat (map (\<lambda>c. c # descendants c) cs)"

fun is_tag :: "string list \<Rightarrow> node \<Rightarrow> bool" where
  "is_tag names (NavigableString s) = False"
| "is_tag names (Tag name cs) = (name \<in> set names)"

definition find_all :: "string list \<Rightarrow> node \<Rightarrow> node list" where
  \<comment> \<open>\<open>node.find_all(names)\<close>\<close>
  "find_all names n = filter (is_tag names) (descendants n)"

fun get_text :: "node \<Rightarrow> string" where
  "get_text (NavigableString s) = s"
| "get_text (Tag name cs) = concat (map get_text cs)"

section \<open>Attribute extractors\<close>

text \<open>
  Each list of patterns is the list of the source, in its order. The multiplication glyph of
  the source's fourth and fifth dimension patterns is stored in the file as the two code
  points U+221A and U+00F3; the first is outside the model's alphabet, so that in the class
  \<open>[xX..]\<close> only U+00F3 is left of the two, and the alternative made of both matches nothing.
\<close>

definition o_acute :: char where
  "o_acute = CHR 0xF3"

definition metric :: regex where
  \<comment> \<open>\<open>(?:cm|mm|m)\<close>\<close>
  "metric = words [''cm'', ''mm'', ''m'']"

definition metric_or_quote :: regex where
  \<comment> \<open>\<open>(?:cm|mm|m|\<close> double quote \<open>)\<close>\<close>
  "metric_or_quote = alts [lit ''cm'', lit ''mm'', lit ''m'', Sym [Ch dquote]]"

definition inches :: regex where
  \<comment> \<open>\<open>inches?\<close>\<close>
  "inches = Seq (lit ''inche'') (opt_re (lit ''s''))"

definition times_class :: regex where
  \<comment> \<open>the class \<open>[xX..]\<close>\<close>
  "times_class = Sym [Ch CHR ''x'', Ch CHR ''X'', Ch o_acute]"

definition times_word :: regex where
  \<comment> \<open>the alternative \<open>(?:x|..)\<close>\<close>
  "times_word = Alt (lit ''x'') (Seq (Sym []) (Sym [Ch o_acute]))"

text \<open>
  The patterns of \<open>dimension_patterns\<close>, as the source writes them:
  \<^enum> \<^verbatim>\<open>(\d+(?:\.\d+)?)\s*(?:cm|mm|m)\s*\(L\)\s*x\s*(\d+(?:\.\d+)?)\s*(?:cm|mm|m)\s*\(W\)\s*x\s*(\d+(?:\.\d+)?)\s*(?:cm|mm|m)\s*\(H\)\<close>
  \<^enum> \<^verbatim>\<open>(\d+(?:\.\d+)?)\s*x\s*(\d+(?:\.\d+)?)\s*(?:x\s*(\d+(?:\.\d+)?))?\s*(?:cm|mm|m)\b\<close>
  \<^enum> \<^verbatim>\<open>(\d+(?:\.\d+)?)\s*(?:"|\'|inch|inches|in)\s*x\s*(\d+(?:\.\d+)?)\s*(?:ft|feet|\')\<close>
  \<^enum> \<^verbatim>\<open>(\d+(?:\.\d+)?)\s*[xX..]\s*(\d+(?:\.\d+)?)\s*(?:[xX..]\s*(\d+(?:\.\d+)?))?\s*(?:cm|mm|m|inches?|ft)\b\<close>
  \<^enum> \<^verbatim>\<open>(?:Dimensions?|Size|Measurements?):\s*(\d+(?:\.\d+)?)\s*(?:x|..)\s*(\d+(?:\.\d+)?)\s*(?:(?:x|..)\s*(\d+(?:\.\d+)?))?\s*(?:cm|mm|m|inches?|ft)?\<close>
  \<^enum> \<^verbatim>\<open>(?:Table size|Product size|Paper size):\s*(\d+(?:\.\d+)?)\s*(?:cm|mm|m)\s*(?:\(L\))?\s*x\s*(\d+(?:\.\d+)?)\s*(?:cm|mm|m)\<close>
  \<^enum> \<^verbatim>\<open>(?:Width|W):\s*(\d+(?:\.\d+)?)\s*(?:cm|mm|m|").*?(?:Height|H):\s*(\d+(?:\.\d+)?)\s*(?:cm|mm|m|").*?(?:Depth|D):\s*(\d+(?:\.\d+)?)\s*(?:cm|mm|m|")\<close>
  \<^enum> \<^verbatim>\<open>(\d+(?:\.\d+)?)\s*(?:cm|mm|m)\s*(?:wide|width|height|tall|long|length)\<close>
\<close>

definition dimension_patterns :: "regex list" where
  "dimension_patterns = [
     cat [Group 1 num, ws, metric, ws, lit ''(L)'', ws, lit ''x'', ws,
          Group 2 num, ws, metric, ws, lit ''(W)'', ws, lit ''x'', ws,
          Group 3 num, ws, metric, ws, lit ''(H)''],
     cat [Group 1 num, ws, lit ''x'', ws, Group 2 num, ws,
          opt_re (cat [lit ''x'', ws, Group 3 num]), ws, metric, WordB],
     cat [Group 1 num, ws,
          alts [Sym [Ch dquote], Sym [Ch quote], lit ''inch'', lit ''inches'', lit ''in''], ws,
          lit ''x'', ws, Group 2 num, ws, alts [lit ''ft'', lit ''feet'', Sym [Ch quote]]],
     cat [Group 1 num, ws, times_class, ws, Group 2 num, ws,
          opt_re (cat [times_class, ws, Group 3 num]), ws,
          alts [lit ''cm'', lit ''mm'', lit ''m'', inches, lit ''ft''], WordB],
     cat [alts [Seq (lit ''Dimension'') (opt_re (lit ''s'')), lit ''Size'',
                Seq (lit ''Measurement'') (opt_re (lit ''s''))],
          lit '':'', ws, Group 1 num, ws, times_word, ws, Group 2 num, ws,
          opt_re (cat [times_word, ws, Group 3 num]), ws,
          opt_re (alts [lit ''cm'', lit ''mm'', lit ''m'', inches, lit ''ft''])],
     cat [words [''Table size'', ''Product size'', ''Paper size''], lit '':'', ws,
          Group 1 num, ws, metric, ws, opt_re (lit ''(L)''), ws, lit ''x'', ws,
          Group 2 num, ws, metric],
     cat [words [''Width'', ''W''], lit '':'', ws, Group 1 num, ws, metric_or_quote, LazyStar AnyChar,
          words [''Height'', ''H''], lit '':'', ws, Group 2 num, ws, metric_or_quote, LazyStar AnyChar,
          words [''Depth'', ''D''], lit '':'', ws, Group 3 num, ws, metric_or_quote],
     cat [Group 1 num, ws, metric, ws,
          words [''wide'', ''width'', ''height'', ''tall'', ''long'', ''length'']]]"

definition unit_pattern :: regex where
  \<comment> \<open>\<open>(cm|mm|m|inches?|in|ft|feet)\<close>\<close>
  "unit_pattern = Group 1 (alts [lit ''cm'', lit ''mm'', lit ''m'', inches, lit ''in'', lit ''ft'',
                                  lit ''feet''])"

definition truthy_groups :: "string option list \<Rightarrow> string list" where
  \<comment> \<open>\<open>[g for g in groups if g]\<close>\<close>
  "truthy_groups gs = List.map_filter (\<lambda>g. if truthy g then g else None) gs"

definition format_unit :: "string option \<Rightarrow> string" where
  \<comment> \<open>\<open>f' {unit}'\<close>\<close>
  "format_unit unit = '' '' @ (case unit of Some u \<Rightarrow> u | None \<Rightarrow> ''None'')"

fun first_dimensions :: "regex list \<Rightarrow> string \<Rightarrow> string option" where
  "first_dimensions [] search_text = None"
| "first_dimensions (pattern # patterns) search_text =
     (case re_search True pattern search_text of
        None \<Rightarrow> first_dimensions patterns search_text
      | Some m \<Rightarrow>
          (let dims = truthy_groups (groups pattern m) in
           if dims \<noteq> [] then
             (let unit = (case re_search True unit_pattern (m_text m) of
                            Some unit_match \<Rightarrow> m_group unit_match 1
                          | None \<Rightarrow> Some ''cm'')
              in Some (join '' x '' dims @ format_unit unit))
           else first_dimensions patterns search_text))"

definition extract_dimensions :: "string \<Rightarrow> string \<Rightarrow> string option" where
  "extract_dimensions text title = first_dimensions dimension_patterns (title @ '' '' @ text)"

text \<open>
  The patterns of \<open>weight_patterns\<close>, as the source writes them:
  \<^enum> \<^verbatim>\<open>(?:Net Weight|Weight|Net):\s*(\d+(?:\.\d+)?)\s*(?:kg|g|lbs)\<close>
  \<^enum> \<^verbatim>\<open>(\d+(?:\.\d+)?)\s*(?:kg|kgs)(?:\s|$|,)\<close>
\<close>

definition weight_patterns :: "regex list" where
  "weight_patterns = [
     cat [words [''Net Weight'', ''Weight'', ''Net''], lit '':'', ws, Group 1 num, ws,
          words [''kg'', ''g'', ''lbs'']],
     cat [Group 1 num, ws, words [''kg'', ''kgs''], alts [Sym [Space], Eol, lit '','']]]"

fun first_match_text :: "regex list \<Rightarrow> string \<Rightarrow> string option" where
  "first_match_text [] text = None"
| "first_match_text (pattern # patterns) text =
     (case re_search True pattern text of
        Some m \<Rightarrow> Some (strip (m_text m))
      | None \<Rightarrow> first_match_text patterns text)"

definition extract_weight :: "string \<Rightarrow> string option" where
  "extract_weight text = first_match_text weight_patterns text"

definition colours :: "string list" where
  "colours = [
     ''black'', ''white'', ''red'', ''blue'', ''green'', ''yellow'', ''orange'',
     ''purple'', ''pink'', ''brown'', ''grey'', ''gray'', ''silver'', ''gold'',
     ''navy'', ''beige'', ''cream'', ''multicolour'', ''multi-colour'', ''turquoise'',
     ''cyan'', ''magenta'', ''maroon'', ''olive'', ''teal'', ''lime'', ''indigo'',
     ''violet'', ''coral'', ''salmon'', ''khaki'', ''burgundy'', ''champagne'',
     ''bronze'', ''copper'', ''rose'', ''mint'', ''lavender'', ''peach'', ''cherry'',
     ''ivory'', ''pearl'', ''charcoal'', ''slate'', ''emerald'', ''sapphire'', ''ruby'']"

definition letters_spaces_hyphen :: regex where
  \<comment> \<open>\<open>[A-Za-z\s\-]+\<close>\<close>
  "letters_spaces_hyphen = plus_re (Sym [RngUpper, RngLower, Space, Ch CHR ''-''])"

text \<open>
  The patterns of \<open>colour_patterns\<close>, as the source writes them:
  \<^enum> \<^verbatim>\<open>(?:Colour|Color):\s*([A-Za-z\s\-]+)\<close>
  \<^enum> \<^verbatim>\<open>(?:Available in|Finish|Shade):\s*([A-Za-z\s\-]+)\<close>
  \<^enum> \<^verbatim>\<open>([A-Za-z]+)\s+(?:Seamless|Background|Paper|Fabric|Material)\<close>
\<close>

definition colour_patterns :: "regex list" where
  "colour_patterns = [
     cat [words [''Colour'', ''Color''], lit '':'', ws, Group 1 letters_spaces_hyphen],
     cat [words [''Available in'', ''Finish'', ''Shade''], lit '':'', ws, Group 1 letters_spaces_hyphen],
     cat [Group 1 (plus_re (Sym [RngUpper, RngLower])), plus_re (Sym [Space]),
          words [''Seamless'', ''Background'', ''Paper'', ''Fabric'', ''Material'']]]"

definition rgb_pattern :: regex where
  \<comment> \<open>\<open>RGB\s*Values?:\s*\((\d+),\s*(\d+),\s*(\d+)\)\<close>\<close>
  "rgb_pattern = cat [lit ''RGB'', ws, lit ''Value'', opt_re (lit ''s''), lit '':'', ws, lit ''('',
     Group 1 (plus_re (Sym [Digit])), lit '','', ws, Group 2 (plus_re (Sym [Digit])), lit '','', ws,
     Group 3 (plus_re (Sym [Digit])), lit '')'']"

definition word_re :: "string \<Rightarrow> regex" where
  \<comment> \<open>\<open>rf'\b{w}\b'\<close>, for a word \<open>w\<close> of the vocabularies (none has a special character)\<close>
  "word_re w = cat [WordB, lit w, WordB]"

fun labelled_colour :: "regex list \<Rightarrow> string \<Rightarrow> string option raising" where
  "labelled_colour [] search_text = Inr None"
| "labelled_colour (pattern # patterns) search_text =
     (case re_search True pattern search_text of
        None \<Rightarrow> labelled_colour patterns search_text
      | Some m \<Rightarrow>
          (case group1_strip m of
             Inl e \<Rightarrow> Inl e
           | Inr stripped \<Rightarrow>
               (let colour_text = lower stripped in
                case find (\<lambda>colour. contains colour colour_text) colours of
                  Some colour \<Rightarrow> Inr (Some (capitalize colour))
                | None \<Rightarrow> labelled_colour patterns search_text)))"

definition rgb_colour :: "string \<Rightarrow> string option" where
  "rgb_colour text =
     (case re_search True rgb_pattern text of
        None \<Rightarrow> None
      | Some rgb_match \<Rightarrow>
          (let context = drop (m_start rgb_match - 100) (take (m_end rgb_match + 50) text) in
           map_option capitalize
             (find (\<lambda>colour. re_search True (word_re colour) context \<noteq> None) colours)))"

definition extract_colour :: "string \<Rightarrow> node \<Rightarrow> string \<Rightarrow> string option raising" where
  "extract_colour text soup title =
     (let search_text = title @ '' '' @ text in
      case labelled_colour colour_patterns search_text of
        Inl e \<Rightarrow> Inl e
      | Inr (Some colour) \<Rightarrow> Inr (Some colour)
      | Inr None \<Rightarrow>
          (case rgb_colour text of
             Some colour \<Rightarrow> Inr (Some colour)
           | None \<Rightarrow>
               (let text_lower = lower search_text in
                Inr (map_option capitalize
                  (find (\<lambda>colour. re_search False (word_re colour) text_lower \<noteq> None) colours)))))"

definition materials :: "string list" where
  "materials = [
     ''MDF'', ''wood'', ''metal'', ''steel'', ''aluminium'', ''aluminum'',
     ''plastic'', ''PVC'', ''fabric'', ''leather'', ''foam'', ''rubber'',
     ''glass'', ''ceramic'', ''carbon'', ''composite'', ''nylon'', ''polyester'',
     ''paper'', ''cardboard'', ''cotton'', ''wool'', ''silk'', ''linen'',
     ''vinyl'', ''acrylic'', ''resin'', ''bamboo'', ''oak'', ''pine'', ''mahogany'',
     ''stainless steel'', ''brass'', ''chrome'', ''titanium'', ''fiberglass'']"

text \<open>
  The patterns of \<open>material_patterns\<close>, as the source writes them:
  \<^enum> \<^verbatim>\<open>(?:Construction|Material|Made from|Manufactured from):\s*([A-Za-z\s\-/]+)\<close>
  \<^enum> \<^verbatim>\<open>(?:^|\s)(\d+%\s*recycled\s+[a-z]+)\<close>
  \<^enum> \<^verbatim>\<open>(?:high quality|premium)\s+([a-z]+\s+paper)\<close>
\<close>

definition material_patterns :: "regex list" where
  "material_patterns = [
     cat [words [''Construction'', ''Material'', ''Made from'', ''Manufactured from''], lit '':'', ws,
          Group 1 (plus_re (Sym [RngUpper, RngLower, Space, Ch CHR ''-'', Ch CHR ''/'']))],
     cat [alts [Bol, Sym [Space]],
          Group 1 (cat [plus_re (Sym [Digit]), lit ''%'', ws, lit ''recycled'', plus_re (Sym [Space]),
                        plus_re (Sym [RngLower])])],
     cat [words [''high quality'', ''premium''], plus_re (Sym [Space]),
          Group 1 (cat [plus_re (Sym [RngLower]), plus_re (Sym [Space]), lit ''paper''])]]"

fun first_group :: "regex list \<Rightarrow> string \<Rightarrow> string option raising" where
  "first_group [] text = Inr None"
| "first_group (pattern # patterns) text =
     (case re_search True pattern text of
        Some m \<Rightarrow> (case group1_strip m of Inl e \<Rightarrow> Inl e | Inr g \<Rightarrow> Inr (Some g))
      | None \<Rightarrow> first_group patterns text)"

definition extract_material :: "string \<Rightarrow> string option raising" where
  "extract_material text =
     (case first_group material_patterns text of
        Inl e \<Rightarrow> Inl e
      | Inr (Some material) \<Rightarrow> Inr (Some material)
      | Inr None \<Rightarrow>
          (let text_lower = lower text;
               found_materials = filter (\<lambda>material.
                   re_search False (word_re (lower material)) text_lower \<noteq> None) materials
           in if found_materials \<noteq> [] then Inr (Some (join '', '' (take 3 found_materials)))
              else Inr None))"

definition patterns_list :: "string list" where
  "patterns_list = [
     ''striped'', ''stripes'', ''polka dot'', ''floral'', ''paisley'', ''plaid'',
     ''checkered'', ''checked'', ''chevron'', ''geometric'', ''animal print'',
     ''leopard'', ''zebra'', ''camouflage'', ''camo'', ''solid'', ''plain'']"

definition pattern_pattern :: regex where
  \<comment> \<open>\<open>(?:Pattern):\s*([A-Za-z\s\-]+)\<close>\<close>
  "pattern_pattern = cat [lit ''Pattern'', lit '':'', ws, Group 1 letters_spaces_hyphen]"

definition extract_pattern :: "string \<Rightarrow> string option raising" where
  "extract_pattern text =
     (case re_search True pattern_pattern text of
        Some m \<Rightarrow> (case group1_strip m of Inl e \<Rightarrow> Inl e | Inr g \<Rightarrow> Inr (Some g))
      | None \<Rightarrow>
          (let text_lower = lower text in
           Inr (map_option capitalize
             (find (\<lambda>pattern_name. re_search False (word_re pattern_name) text_lower \<noteq> None)
                patterns_list))))"

text \<open>
  The patterns of \<open>apparel_patterns\<close>, as the source writes them:
  \<^enum> \<^verbatim>\<open>\b((?:XX?|[23X])?[SML](?:arge|edium|mall)?)\b\<close>
  \<^enum> \<^verbatim>\<open>\bsize:?\s*([A-Z0-9\-/]+)\b\<close>
  \<^enum> \<^verbatim>\<open>\b(\d+(?:\.\d+)?)\s*(?:UK|US|EU)\b\<close>
  \<^enum> \<^verbatim>\<open>\bone size\b\<close>
  \<^enum> \<^verbatim>\<open>\bOSFA\b\<close>
\<close>

definition apparel_patterns :: "regex list" where
  "apparel_patterns = [
     cat [WordB,
          Group 1 (cat [opt_re (alts [Seq (lit ''X'') (opt_re (lit ''X'')),
                                      Sym [Ch CHR ''2'', Ch CHR ''3'', Ch CHR ''X'']]),
                        Sym [Ch CHR ''S'', Ch CHR ''M'', Ch CHR ''L''],
                        opt_re (words [''arge'', ''edium'', ''mall''])]),
          WordB],
     cat [WordB, lit ''size'', opt_re (lit '':''), ws,
          Group 1 (plus_re (Sym [RngUpper, RngDigit, Ch CHR ''-'', Ch CHR ''/''])), WordB],
     cat [WordB, Group 1 num, ws, words [''UK'', ''US'', ''EU''], WordB],
     cat [WordB, lit ''one size'', WordB],
     cat [WordB, lit ''OSFA'', WordB]]"

fun first_size :: "regex list \<Rightarrow> string \<Rightarrow> string option" where
  "first_size [] search_text = None"
| "first_size (pattern # patterns) search_text =
     (case re_search True pattern search_text of
        Some m \<Rightarrow> if groups pattern m \<noteq> [] then m_group m 1 else m_group m 0
      | None \<Rightarrow> first_size patterns search_text)"

definition extract_size :: "string \<Rightarrow> string \<Rightarrow> string option" where
  "extract_size text title = first_size apparel_patterns (title @ '' '' @ text)"

text \<open>The table scan: \<open>data\<close> is the dictionary built so far.\<close>

definition scan_row :: "node \<Rightarrow> (string \<rightharpoonup> string) \<Rightarrow> (string \<rightharpoonup> string)" where
  "scan_row row data =
     (let cells = find_all [''td'', ''th''] row in
      if length cells \<ge> 2 then
        (let key = lower (strip (get_text (cells ! 0)));
             val = strip (get_text (cells ! 1))
         in if contains ''dimension'' key \<or> contains ''size'' key then data(''size'' \<mapsto> val)
            else if contains ''weight'' key then data(''weight'' \<mapsto> val)
            else if contains ''colour'' key \<or> contains ''color'' key then data(''colour'' \<mapsto> val)
            else if contains ''material'' key then data(''material'' \<mapsto> val)
            else data)
      else data)"

definition extract_table_data :: "node \<Rightarrow> (string \<rightharpoonup> string)" where
  "extract_table_data soup =
     foldl (\<lambda>data table. foldl (\<lambda>data row. scan_row row data) data (find_all [''tr''] table))
       Map.empty (find_all [''table''] soup)"

section \<open>The Item Processor\<close>

text \<open>
  The response of \<open>session.get\<close>: its status code, reason phrase and URL, and the document that
  \<open>BeautifulSoup(response.content, 'html.parser')\<close> builds from its body.
  \<open>raise_for_status\<close> is the one of \<open>requests\<close>: it raises \<open>HTTPError\<close>, a
  \<open>RequestException\<close>, for the status codes 400 to 599 and returns for every other code.
\<close>

record response =
  status_code :: nat
  reason :: string
  response_url :: string
  content :: node

fun show_nat :: "nat \<Rightarrow> string" where
  "show_nat n = (if n < 10 then [char_of (48 + n)] else show_nat (n div 10) @ [char_of (48 + n mod 10)])"

declare show_nat.simps [simp del]

definition raise_for_status :: "response \<Rightarrow> unit raising" where
  "raise_for_status r =
     (if 400 \<le> status_code r \<and> status_code r < 500 then
        Inl (RequestException (show_nat (status_code r) @ '' Client Error: '' @ reason r @
                               '' for url: '' @ response_url r))
      else if 500 \<le> status_code r \<and> status_code r < 600 then
        Inl (RequestException (show_nat (status_code r) @ '' Server Error: '' @ reason r @
                               '' for url: '' @ response_url r))
      else Inr ())"

text \<open>
  The object \<open>self\<close>: the session's \<open>get\<close> (the network, from a URL to a response or an
  exception) and the extractor methods that \<open>scrape_product_attributes\<close> calls through
  \<open>self\<close>. Every call may raise.
\<close>

type_synonym attributes = "string \<rightharpoonup> string"

record scraper =
  session_get :: "string \<Rightarrow> response raising"
  dimensions_method :: "string \<Rightarrow> string \<Rightarrow> string option raising"
  weight_method :: "string \<Rightarrow> string option raising"
  colour_method :: "string \<Rightarrow> node \<Rightarrow> string \<Rightarrow> string option raising"
  material_method :: "string \<Rightarrow> string option raising"
  pattern_method :: "string \<Rightarrow> string option raising"
  size_method :: "string \<Rightarrow> string \<Rightarrow> string option raising"
  table_data_method :: "node \<Rightarrow> attributes raising"

definition FeedAttributeScraper :: "(string \<Rightarrow> response raising) \<Rightarrow> scraper" where
  \<comment> \<open>an object of the class, on a given network\<close>
  "FeedAttributeScraper net =
     \<lparr>session_get = net,
      dimensions_method = (\<lambda>text title. Inr (extract_dimensions text title)),
      weight_method = (\<lambda>text. Inr (extract_weight text)),
      colour_method = extract_colour,
      material_method = extract_material,
      pattern_method = extract_pattern,
      size_method = (\<lambda>text title. Inr (extract_size text title)),
      table_data_method = (\<lambda>soup. Inr (extract_table_data soup))\<rparr>"

text \<open>
  The statements of the \<open>try\<close> block work on the dictionary \<open>attributes\<close>, which is updated
  in place: when a statement raises, the handler finds the dictionary as the statements
  before it left it.
\<close>

definition assign_if :: "string \<Rightarrow> string option raising \<Rightarrow> attributes \<Rightarrow> attributes raising" where
  \<comment> \<open>\<open>x = call; if x: attributes[key] = x\<close>\<close>
  "assign_if key call attributes =
     (case call of
        Inl e \<Rightarrow> Inl e
      | Inr None \<Rightarrow> Inr attributes
      | Inr (Some x) \<Rightarrow> Inr (if x \<noteq> [] then attributes(key \<mapsto> x) else attributes))"

definition update_with :: "attributes raising \<Rightarrow> attributes \<Rightarrow> attributes raising" where
  \<comment> \<open>\<open>table_data = call; attributes.update(table_data)\<close>\<close>
  "update_with call attributes =
     (case call of Inl e \<Rightarrow> Inl e | Inr table_data \<Rightarrow> Inr (attributes ++ table_data))"

fun run :: "(attributes \<Rightarrow> attributes raising) list \<Rightarrow> attributes \<Rightarrow> attributes \<times> exn option" where
  "run [] attributes = (attributes, None)"
| "run (statement # statements) attributes =
     (case statement attributes of
        Inl e \<Rightarrow> (attributes, Some e)
      | Inr attributes' \<Rightarrow> run statements attributes')"

definition extraction_steps ::
    "scraper \<Rightarrow> node \<Rightarrow> string \<Rightarrow> string \<Rightarrow> (attributes \<Rightarrow> attributes raising) list" where
  "extraction_steps self soup page_text title =
     [assign_if ''size_dimensions'' (dimensions_method self page_text title),
      assign_if ''weight'' (weight_method self page_text),
      assign_if ''color'' (colour_method self page_text soup title),
      assign_if ''material'' (material_method self page_text),
      assign_if ''pattern'' (pattern_method self page_text),
      assign_if ''size'' (size_method self page_text title),
      update_with (table_data_method self soup)]"

definition get_or :: "attributes \<Rightarrow> string \<Rightarrow> string \<Rightarrow> string" where
  \<comment> \<open>\<open>d.get(key, dflt)\<close>\<close>
  "get_or d key dflt = (case d key of Some v \<Rightarrow> v | None \<Rightarrow> dflt)"

definition try_body :: "scraper \<Rightarrow> string \<Rightarrow> attributes \<Rightarrow> attributes \<times> exn option" where
  "try_body self url attributes =
     (case session_get self url of
        Inl e \<Rightarrow> (attributes, Some e)
      | Inr response \<Rightarrow>
          (case raise_for_status response of
             Inl e \<Rightarrow> (attributes, Some e)
           | Inr _ \<Rightarrow>
               (let soup = content response;
                    page_text = get_text soup;
                    title = get_or attributes ''title'' ''''
                in run (extraction_steps self soup page_text title) attributes)))"

definition scrape_product_attributes :: "scraper \<Rightarrow> attributes \<Rightarrow> attributes" where
  "scrape_product_attributes self product_data =
     (let attributes = product_data;
          url = get_or attributes ''url'' ''''
      in if url = [] then attributes(''error'' \<mapsto> ''No URL provided'')
         else
           (case try_body self url attributes of
              (attributes', None) \<Rightarrow> attributes'
            | (attributes', Some (RequestException msg)) \<Rightarrow>
                attributes'(''error'' \<mapsto> ''Request error: '' @ msg)
            | (attributes', Some (Exception msg)) \<Rightarrow>
                attributes'(''error'' \<mapsto> ''Processing error: '' @ msg)))"

section \<open>The Feed Parser\<close>

text \<open>
  The input is modelled by what \<open>ET.fromstring\<close> makes of it: a \<open>ParseError\<close> for a document
  that is not well-formed, the root element otherwise. An element has a tag (with its
  namespace in braces before it, as ElementTree writes it), a text and children.
\<close>

datatype element = Element (tag: string) (text_of: "string option") (children: "element list")

datatype xml_content = NotWellFormed string | WellFormed element

fun fromstring :: "xml_content \<Rightarrow> element raising" where
  "fromstring (NotWellFormed msg) = Inl (Exception msg)"
| "fromstring (WellFormed root) = Inr root"

fun below :: "element \<Rightarrow> element list" where
  \<comment> \<open>the elements below an element, in document order\<close>
  "below (Element t x cs) = concat (map (\<lambda>c. c # below c) cs)"

definition findall_items :: "element \<Rightarrow> element list" where
  \<comment> \<open>\<open>root.findall('.//item')\<close>\<close>
  "findall_items root = filter (\<lambda>e. tag e = ''item'') (below root)"

definition find_child :: "string \<Rightarrow> element \<Rightarrow> element option" where
  \<comment> \<open>\<open>item.find(name)\<close>: the first child with that tag\<close>
  "find_child name item = find (\<lambda>c. tag c = name) (children item)"

definition g_namespace :: string where
  "g_namespace = ''{http://base.google.com/ns/1.0}''"

definition find_field :: "string \<Rightarrow> element \<Rightarrow> element option" where
  \<comment> \<open>\<open>e = item.find('g:name', namespaces); if e is None: e = item.find('name')\<close>\<close>
  "find_field name item =
     (case find_child (g_namespace @ name) item of
        None \<Rightarrow> find_child name item
      | Some e \<Rightarrow> Some e)"

definition truthy_text :: "element option \<Rightarrow> string option" where
  \<comment> \<open>the text of \<open>e\<close> when \<open>e is not None and e.text\<close>\<close>
  "truthy_text e =
     (case e of
        None \<Rightarrow> None
      | Some el \<Rightarrow> (case text_of el of None \<Rightarrow> None | Some t \<Rightarrow> if t \<noteq> [] then Some t else None))"

definition product_of_item :: "element \<Rightarrow> attributes" where
  "product_of_item item =
     (let product = Map.empty;
          product = (case truthy_text (find_field ''id'' item) of
                       Some t \<Rightarrow> product(''id'' \<mapsto> strip t) | None \<Rightarrow> product);
          product = (case truthy_text (find_field ''title'' item) of
                       Some t \<Rightarrow> product(''title'' \<mapsto> strip t) | None \<Rightarrow> product);
          product = (case truthy_text (find_field ''link'' item) of
                       Some t \<Rightarrow> (let url = strip t in
                                  if startswith ''http'' url then product(''url'' \<mapsto> url) else product)
                     | None \<Rightarrow> product)
      in product)"

fun items_loop :: "element list \<Rightarrow> attributes list \<Rightarrow> attributes list" where
  "items_loop [] products = products"
| "items_loop (item # items) products =
     (let product = product_of_item item in
      if ''url'' \<in> dom product then items_loop items (products @ [product])
      else items_loop items products)"

fun exn_str :: "exn \<Rightarrow> string" where
  \<comment> \<open>\<open>str(e)\<close>\<close>
  "exn_str (RequestException msg) = msg"
| "exn_str (Exception msg) = msg"

text \<open>The result is paired with the messages given to \<open>st.error\<close>.\<close>

definition extract_products_from_xml :: "xml_content \<Rightarrow> attributes list \<times> string list" where
  "extract_products_from_xml xml =
     (case fromstring xml of
        Inl e \<Rightarrow> ([], [''Error parsing XML: '' @ exn_str e])
      | Inr root \<Rightarrow> (items_loop (findall_items root) [], []))"

section \<open>The Batch Orchestrator\<close>

definition apply_limit :: "int \<Rightarrow> 'a list \<Rightarrow> 'a list" where
  \<comment> \<open>\<open>if max_urls > 0 and max_urls < len(products): products = products[:max_urls]\<close>\<close>
  "apply_limit max_urls products =
     (if max_urls > 0 \<and> max_urls < int (length products) then take (nat max_urls) products
      else products)"

fun scrape_loop :: "scraper \<Rightarrow> attributes list \<Rightarrow> attributes list \<Rightarrow> attributes list" where
  \<comment> \<open>the loop over \<open>products\<close>, appending to \<open>all_attributes\<close>\<close>
  "scrape_loop self [] all_attributes = all_attributes"
| "scrape_loop self (product # products) all_attributes =
     scrape_loop self products (all_attributes @ [scrape_product_attributes self product])"

definition scrape_all :: "scraper \<Rightarrow> int \<Rightarrow> attributes list \<Rightarrow> attributes list" where
  "scrape_all self max_urls products = scrape_loop self (apply_limit max_urls products) []"

definition main :: "scraper \<Rightarrow> int \<Rightarrow> xml_content \<Rightarrow> attributes list" where
  \<comment> \<open>the results of a run: the feed is parsed, the limit applied, every product scraped\<close>
  "main self max_urls xml =
     (let products = fst (extract_products_from_xml xml) in
      if products = [] then [] else scrape_all self max_urls products)"

section \<open>The Batch Orchestrator and the Feed Parser on a malformed feed\<close>

lemma scrape_loop_map:
  "scrape_loop self products acc = acc @ map (scrape_product_attributes self) products"
  by (induction products arbitrary: acc) simp_all

text \<open>
  Claim C7. A document that is not well-formed makes \<open>ET.fromstring\<close> raise; the parser
  catches the exception, reports \<open>Error parsing XML\<close> and returns the empty list. No item is
  returned, and a run on such a feed has no results.
\<close>

theorem feed_parser_malformed:
  "extract_products_from_xml (NotWellFormed msg) = ([], [''Error parsing XML: '' @ msg]) \<and>
   main self max_urls (NotWellFormed msg) = []"
  by (simp add: extract_products_from_xml_def main_def)

text \<open>
  Claim C8. With a limit that is positive and below the number of products, exactly the
  first \<open>max_urls\<close> products are processed, in order. In every case the results are the
  products after the limit, each scraped, in the order of the input: there is one result
  for each of them, whatever the network answers for the others.
\<close>

theorem batch_limit_and_order:
  "(0 < max_urls \<and> max_urls < int (length products) \<longrightarrow>
      scrape_all self max_urls products =
        map (scrape_product_attributes self) (take (nat max_urls) products)) \<and>
   scrape_all self max_urls products =
     map (scrape_product_attributes self) (apply_limit max_urls products) \<and>
   length (scrape_all self max_urls products) = length (apply_limit max_urls products) \<and>
   (\<forall>i < length (apply_limit max_urls products).
      scrape_all self max_urls products ! i =
        scrape_product_attributes self (apply_limit max_urls products ! i))"
  by (simp add: scrape_all_def scrape_loop_map apply_limit_def)

text \<open>Two products and a limit of one, on a network where every request times out.\<close>

theorem batch_limit_and_order_witness:
  "(0::int) < 1 \<and>
   (1::int) < int (length [[''url'' \<mapsto> ''http://example.com/p1''],
                           [''url'' \<mapsto> ''http://example.com/p2'']]) \<and>
   scrape_all (FeedAttributeScraper (\<lambda>url. Inl (RequestException ''timed out''))) 1
     [[''url'' \<mapsto> ''http://example.com/p1''], [''url'' \<mapsto> ''http://example.com/p2'']] =
     [[''url'' \<mapsto> ''http://example.com/p1'', ''error'' \<mapsto> ''Request error: timed out'']]"
  using batch_limit_and_order [of 1
      "[[''url'' \<mapsto> ''http://example.com/p1''], [''url'' \<mapsto> ''http://example.com/p2'']]"
      "FeedAttributeScraper (\<lambda>url. Inl (RequestException ''timed out''))"]
  by (simp add: scrape_product_attributes_def get_or_def try_body_def FeedAttributeScraper_def)

section \<open>Keys of the returned bag\<close>

subsection \<open>Statements only add keys\<close>

definition adds_within :: "string set \<Rightarrow> (attributes \<Rightarrow> attributes raising) \<Rightarrow> bool" where
  "adds_within K st = (\<forall>a a'. st a = Inr a' \<longrightarrow> dom a \<subseteq> dom a' \<and> dom a' \<subseteq> dom a \<union> K)"

lemma assign_if_adds: "adds_within {key} (assign_if key call)"
  by (auto simp: adds_within_def assign_if_def split: sum.splits option.splits if_splits)

lemma update_with_adds:
  "(\<And>t. call = Inr t \<Longrightarrow> dom t \<subseteq> K) \<Longrightarrow> adds_within K (update_with call)"
  by (auto simp: adds_within_def update_with_def split: sum.splits)

lemma adds_within_mono: "adds_within K st \<Longrightarrow> K \<subseteq> K' \<Longrightarrow> adds_within K' st"
  unfolding adds_within_def by blast

lemma run_adds:
  "\<forall>st \<in> set sts. adds_within K st \<Longrightarrow> run sts a = (a', e) \<Longrightarrow> dom a \<subseteq> dom a' \<and> dom a' \<subseteq> dom a \<union> K"
proof (induction sts arbitrary: a)
  case Nil
  then show ?case by simp
next
  case (Cons st sts)
  show ?case
  proof (cases "st a")
    case (Inl x)
    with Cons.prems show ?thesis by simp
  next
    case (Inr b)
    with Cons.prems have r: "run sts b = (a', e)" by simp
    from Cons.prems have "adds_within K st" by simp
    with Inr have b: "dom a \<subseteq> dom b \<and> dom b \<subseteq> dom a \<union> K" by (simp add: adds_within_def)
    from Cons.IH [OF _ r] Cons.prems have "dom b \<subseteq> dom a' \<and> dom a' \<subseteq> dom b \<union> K" by simp
    with b show ?thesis by blast
  qed
qed

lemma run_take:
  "run (take n sts) a = (b, None) \<Longrightarrow> run sts a = run (drop n sts) b"
proof (induction sts arbitrary: a n)
  case Nil
  then show ?case by simp
next
  case (Cons st sts)
  show ?case
  proof (cases n)
    case 0
    with Cons.prems show ?thesis by simp
  next
    case (Suc m)
    with Cons.prems show ?thesis
      by (cases "st a") (simp_all add: Cons.IH)
  qed
qed

definition regex_keys :: "string set" where
  "regex_keys = {''size_dimensions'', ''weight'', ''color'', ''material'', ''pattern'', ''size''}"

definition table_keys :: "string set" where
  "table_keys = {''size'', ''weight'', ''colour'', ''material''}"

lemma extraction_steps_adds:
  assumes "\<And>t. table_data_method self soup = Inr t \<Longrightarrow> dom t \<subseteq> K"
  shows "\<forall>st \<in> set (extraction_steps self soup page_text title). adds_within (regex_keys \<union> K) st"
proof -
  have a: "\<And>key call. key \<in> regex_keys \<Longrightarrow> adds_within (regex_keys \<union> K) (assign_if key call)"
    by (rule adds_within_mono [OF assign_if_adds]) simp
  have u: "adds_within (regex_keys \<union> K) (update_with (table_data_method self soup))"
    by (rule adds_within_mono [OF update_with_adds [of _ K]]) (use assms in auto)
  have k: "''size_dimensions'' \<in> regex_keys" "''weight'' \<in> regex_keys" "''color'' \<in> regex_keys"
    "''material'' \<in> regex_keys" "''pattern'' \<in> regex_keys" "''size'' \<in> regex_keys"
    by (simp_all add: regex_keys_def)
  show ?thesis
    by (simp add: extraction_steps_def a [OF k(1)] a [OF k(2)] a [OF k(3)] a [OF k(4)] a [OF k(5)]
        a [OF k(6)] u)
qed

lemma scan_row_dom: "dom (scan_row row data) \<subseteq> dom data \<union> table_keys"
  by (auto simp: scan_row_def Let_def table_keys_def split: if_splits)

lemma foldl_rows_dom:
  "dom (foldl (\<lambda>data row. scan_row row data) data rows) \<subseteq> dom data \<union> table_keys"
proof (induction rows arbitrary: data)
  case Nil
  then show ?case by simp
next
  case (Cons row rows)
  from Cons.IH [of "scan_row row data"] scan_row_dom [of row data]
  show ?case by auto
qed

lemma foldl_tables_dom:
  "dom (foldl (\<lambda>data table. foldl (\<lambda>data row. scan_row row data) data (find_all [''tr''] table)) data tables)
     \<subseteq> dom data \<union> table_keys"
proof (induction tables arbitrary: data)
  case Nil
  then show ?case by simp
next
  case (Cons t ts)
  from Cons.IH [of "foldl (\<lambda>data row. scan_row row data) data (find_all [''tr''] t)"]
    foldl_rows_dom [of data "find_all [''tr''] t"]
  show ?case by auto
qed

lemma extract_table_data_dom: "dom (extract_table_data soup) \<subseteq> table_keys"
  using foldl_tables_dom [of Map.empty "find_all [''table''] soup"]
  by (simp add: extract_table_data_def)

lemma try_body_dom:
  assumes "\<And>soup t. table_data_method self soup = Inr t \<Longrightarrow> dom t \<subseteq> K"
    and "try_body self url a = (a', e)"
  shows "dom a \<subseteq> dom a' \<and> dom a' \<subseteq> dom a \<union> regex_keys \<union> K"
proof (cases "session_get self url")
  case (Inl x)
  with assms(2) show ?thesis by (auto simp: try_body_def)
next
  case (Inr r)
  show ?thesis
  proof (cases "raise_for_status r")
    case (Inl x)
    with Inr assms(2) show ?thesis by (auto simp: try_body_def)
  next
    case Inr': (Inr u)
    with Inr assms(2)
    have "run (extraction_steps self (content r) (get_text (content r)) (get_or a ''title'' '''')) a = (a', e)"
      by (simp add: try_body_def Let_def)
    from run_adds [OF extraction_steps_adds this, of K] assms(1)
    show ?thesis by (auto simp: Un_assoc)
  qed
qed

lemma scrape_dom:
  assumes "\<And>soup t. table_data_method self soup = Inr t \<Longrightarrow> dom t \<subseteq> K"
  shows "dom p \<subseteq> dom (scrape_product_attributes self p) \<and>
         dom (scrape_product_attributes self p) \<subseteq> dom p \<union> regex_keys \<union> K \<union> {''error''}"
proof (cases "get_or p ''url'' '''' = []")
  case True
  then show ?thesis by (auto simp: scrape_product_attributes_def)
next
  case False
  obtain a' e where t: "try_body self (get_or p ''url'' '''') p = (a', e)" by fastforce
  from try_body_dom [OF assms t] have d: "dom p \<subseteq> dom a' \<and> dom a' \<subseteq> dom p \<union> regex_keys \<union> K" by simp
  show ?thesis
  proof (cases e)
    case None
    with False t d show ?thesis by (auto simp: scrape_product_attributes_def)
  next
    case (Some x)
    with False t d show ?thesis by (cases x) (auto simp: scrape_product_attributes_def)
  qed
qed

text \<open>
  Claim C10. The keys of a returned bag are keys of the input record or one of
  \<open>size_dimensions\<close>, \<open>weight\<close>, \<open>color\<close>, \<open>material\<close>, \<open>pattern\<close>, \<open>size\<close>, \<open>colour\<close>,
  \<open>error\<close>; the table scan yields no key but \<open>size\<close>, \<open>weight\<close>, \<open>colour\<close>, \<open>material\<close>.
  The try block has the seven statements of \<open>extraction_steps\<close> and no other: no
  identifier, GSM, motor, warranty or brand extractor is called, and no key of theirs can
  appear.
\<close>

theorem output_keys_fixed:
  "dom (scrape_product_attributes (FeedAttributeScraper net) product_data) \<subseteq>
     dom product_data \<union>
     {''size_dimensions'', ''weight'', ''color'', ''material'', ''pattern'', ''size'', ''colour'', ''error''} \<and>
   dom (extract_table_data soup) \<subseteq> {''size'', ''weight'', ''colour'', ''material''}"
proof -
  have t: "\<And>soup t. table_data_method (FeedAttributeScraper net) soup = Inr t \<Longrightarrow> dom t \<subseteq> table_keys"
    using extract_table_data_dom by (auto simp: FeedAttributeScraper_def)
  have "dom (scrape_product_attributes (FeedAttributeScraper net) product_data) \<subseteq>
          dom product_data \<union> regex_keys \<union> table_keys \<union> {''error''}"
    using scrape_dom [where self = "FeedAttributeScraper net" and K = table_keys and p = product_data] t
    by blast
  with extract_table_data_dom [of soup]
  show ?thesis by (auto simp: regex_keys_def table_keys_def)
qed

lemma scrape_no_url:
  "get_or p ''url'' '''' = [] \<Longrightarrow> scrape_product_attributes self p = p(''error'' \<mapsto> ''No URL provided'')"
  by (simp add: scrape_product_attributes_def)

lemma scrape_request_exception:
  "get_or p ''url'' '''' \<noteq> [] \<Longrightarrow> session_get self (get_or p ''url'' '''') = Inl (RequestException msg) \<Longrightarrow>
   scrape_product_attributes self p = p(''error'' \<mapsto> ''Request error: '' @ msg)"
  by (simp add: scrape_product_attributes_def try_body_def)

lemma raise_for_status_raises:
  "400 \<le> status_code r \<Longrightarrow> status_code r < 600 \<Longrightarrow> \<exists>msg. raise_for_status r = Inl (RequestException msg)"
  by (cases "status_code r < 500") (simp_all add: raise_for_status_def)

lemma scrape_http_error:
  assumes "get_or p ''url'' '''' \<noteq> []" and "session_get self (get_or p ''url'' '''') = Inr r"
    and "400 \<le> status_code r" and "status_code r < 600"
  shows "\<exists>msg. scrape_product_attributes self p = p(''error'' \<mapsto> ''Request error: '' @ msg)"
proof -
  from raise_for_status_raises [OF assms(3,4)]
  obtain msg where "raise_for_status r = Inl (RequestException msg)" by blast
  with assms(1,2) have "scrape_product_attributes self p = p(''error'' \<mapsto> ''Request error: '' @ msg)"
    by (simp add: scrape_product_attributes_def try_body_def)
  then show ?thesis by blast
qed

text \<open>
  Claim C3, as amended. When \<open>session.get\<close> raises a \<open>RequestException\<close> (a timeout, a
  connection failure), or the response has a status from 400 to 599 (for which
  \<open>raise_for_status\<close> raises), the returned bag is the input record with a
  \<open>Request error\<close> marker and nothing else. When the record has no URL, or an empty one,
  the returned bag is the input record with the marker \<open>No URL provided\<close>, whatever the
  network is: no request is made.
\<close>

theorem transport_failure:
  "(get_or product_data ''url'' '''' \<noteq> [] \<and>
    session_get self (get_or product_data ''url'' '''') = Inl (RequestException msg) \<longrightarrow>
      scrape_product_attributes self product_data = product_data(''error'' \<mapsto> ''Request error: '' @ msg)) \<and>
   (get_or product_data ''url'' '''' \<noteq> [] \<and>
    session_get self (get_or product_data ''url'' '''') = Inr r \<and>
    400 \<le> status_code r \<and> status_code r < 600 \<longrightarrow>
      (\<exists>msg. scrape_product_attributes self product_data =
               product_data(''error'' \<mapsto> ''Request error: '' @ msg))) \<and>
   (get_or product_data ''url'' '''' = [] \<longrightarrow>
      scrape_product_attributes self product_data = product_data(''error'' \<mapsto> ''No URL provided''))"
  using scrape_no_url scrape_request_exception scrape_http_error by blast

text \<open>A timeout, a response 404 and a record without a URL.\<close>

theorem transport_failure_witness:
  "(get_or [''id'' \<mapsto> ''1'', ''url'' \<mapsto> ''http://example.com/p1''] ''url'' '''' \<noteq> [] \<and>
    session_get (FeedAttributeScraper (\<lambda>url. Inl (RequestException ''timed out'')))
      (get_or [''id'' \<mapsto> ''1'', ''url'' \<mapsto> ''http://example.com/p1''] ''url'' '''') = Inl (RequestException ''timed out'') \<and>
    scrape_product_attributes (FeedAttributeScraper (\<lambda>url. Inl (RequestException ''timed out'')))
      [''id'' \<mapsto> ''1'', ''url'' \<mapsto> ''http://example.com/p1''] =
      [''id'' \<mapsto> ''1'', ''url'' \<mapsto> ''http://example.com/p1'', ''error'' \<mapsto> ''Request error: timed out'']) \<and>
   (get_or [''url'' \<mapsto> ''http://example.com/p1''] ''url'' '''' \<noteq> [] \<and>
    session_get (FeedAttributeScraper (\<lambda>url. Inr \<lparr>status_code = 404, reason = ''Not Found'', response_url = url,
        content = Tag ''[document]'' [NavigableString ''Weight: 2 kg'']\<rparr>))
      (get_or [''url'' \<mapsto> ''http://example.com/p1''] ''url'' '''') =
      Inr \<lparr>status_code = 404, reason = ''Not Found'', response_url = ''http://example.com/p1'',
        content = Tag ''[document]'' [NavigableString ''Weight: 2 kg'']\<rparr> \<and>
    (\<exists>msg. scrape_product_attributes (FeedAttributeScraper (\<lambda>url. Inr \<lparr>status_code = 404, reason = ''Not Found'',
        response_url = url, content = Tag ''[document]'' [NavigableString ''Weight: 2 kg'']\<rparr>))
      [''url'' \<mapsto> ''http://example.com/p1''] =
      [''url'' \<mapsto> ''http://example.com/p1'', ''error'' \<mapsto> ''Request error: '' @ msg])) \<and>
   (get_or [''id'' \<mapsto> ''1''] ''url'' '''' = [] \<and>
    scrape_product_attributes (FeedAttributeScraper (\<lambda>url. Inl (RequestException ''timed out''))) [''id'' \<mapsto> ''1''] =
      [''id'' \<mapsto> ''1'', ''error'' \<mapsto> ''No URL provided''])"
  using transport_failure [of "[''id'' \<mapsto> ''1'', ''url'' \<mapsto> ''http://example.com/p1'']"
      "FeedAttributeScraper (\<lambda>url. Inl (RequestException ''timed out''))" "''timed out''"]
    transport_failure [of "[''url'' \<mapsto> ''http://example.com/p1'']"
      "FeedAttributeScraper (\<lambda>url. Inr \<lparr>status_code = 404, reason = ''Not Found'', response_url = url,
        content = Tag ''[document]'' [NavigableString ''Weight: 2 kg'']\<rparr>)" _
      "\<lparr>status_code = 404, reason = ''Not Found'', response_url = ''http://example.com/p1'',
        content = Tag ''[document]'' [NavigableString ''Weight: 2 kg'']\<rparr>"]
    transport_failure [of "[''id'' \<mapsto> ''1'']" "FeedAttributeScraper (\<lambda>url. Inl (RequestException ''timed out''))"]
  by (simp add: get_or_def FeedAttributeScraper_def)

text \<open>
  The claim as stated counts every status outside 200 to 299 as a transport failure. A
  response with status 300 is not an error for \<open>raise_for_status\<close>: its body is processed,
  the bag gets a \<open>weight\<close> and no error marker.
\<close>

theorem transport_failure_counterexample:
  "\<not> (200 \<le> status_code \<lparr>status_code = 300, reason = ''Multiple Choices'', response_url = ''http://example.com/p1'',
        content = Tag ''[document]'' [NavigableString ''Weight: 2 kg'']\<rparr> \<and>
       status_code \<lparr>status_code = 300, reason = ''Multiple Choices'', response_url = ''http://example.com/p1'',
        content = Tag ''[document]'' [NavigableString ''Weight: 2 kg'']\<rparr> < 300) \<and>
   scrape_product_attributes (FeedAttributeScraper (\<lambda>url. Inr \<lparr>status_code = 300, reason = ''Multiple Choices'',
        response_url = url, content = Tag ''[document]'' [NavigableString ''Weight: 2 kg'']\<rparr>))
      [''url'' \<mapsto> ''http://example.com/p1''] ''weight'' = Some ''Weight: 2 kg'' \<and>
   scrape_product_attributes (FeedAttributeScraper (\<lambda>url. Inr \<lparr>status_code = 300, reason = ''Multiple Choices'',
        response_url = url, content = Tag ''[document]'' [NavigableString ''Weight: 2 kg'']\<rparr>))
      [''url'' \<mapsto> ''http://example.com/p1''] ''error'' = None"
  by code_simp

lemma extraction_steps_monotone:
  "\<forall>st \<in> set (extraction_steps self soup page_text title). adds_within UNIV st"
  using extraction_steps_adds [of self soup UNIV page_text title] by simp

lemma run_prefix_dom:
  assumes "\<forall>st \<in> set sts. adds_within UNIV st"
    and "run (take n sts) a = (b, None)" and "run sts a = (a', e)"
  shows "dom b \<subseteq> dom a'"
proof -
  from run_take [OF assms(2)] assms(3) have r: "run (drop n sts) b = (a', e)" by simp
  from assms(1) have "\<forall>st \<in> set (drop n sts). adds_within UNIV st"
    by (meson in_set_dropD)
  from run_adds [OF this r] show ?thesis by simp
qed

lemma scrape_handler:
  assumes "get_or p ''url'' '''' \<noteq> []" and "try_body self (get_or p ''url'' '''') p = (a, Some e)"
  shows "scrape_product_attributes self p =
           a(''error'' \<mapsto> (case e of RequestException msg \<Rightarrow> ''Request error: '' @ msg
                                     | Exception msg \<Rightarrow> ''Processing error: '' @ msg))"
  using assms by (cases e) (simp_all add: scrape_product_attributes_def)

lemma scrape_dom_of_try:
  assumes "get_or p ''url'' '''' \<noteq> []" and "try_body self (get_or p ''url'' '''') p = (a, e)"
  shows "dom a \<subseteq> dom (scrape_product_attributes self p)"
proof (cases e)
  case None
  with assms show ?thesis by (simp add: scrape_product_attributes_def)
next
  case (Some x)
  with assms scrape_handler [of p self a x] show ?thesis by auto
qed

lemma scrape_keeps_reached_keys:
  assumes u: "get_or p ''url'' '''' \<noteq> []"
    and g: "session_get self (get_or p ''url'' '''') = Inr r"
    and s: "raise_for_status r = Inr ()"
    and n: "run (take n (extraction_steps self (content r) (get_text (content r)) (get_or p ''title'' ''''))) p = (b, None)"
  shows "dom b \<subseteq> dom (scrape_product_attributes self p)"
proof -
  obtain a e where
    t: "run (extraction_steps self (content r) (get_text (content r)) (get_or p ''title'' '''')) p = (a, e)"
    by fastforce
  with g s have tb: "try_body self (get_or p ''url'' '''') p = (a, e)"
    by (simp add: try_body_def)
  from run_prefix_dom [OF extraction_steps_monotone n t] scrape_dom_of_try [OF u tb]
  show ?thesis by blast
qed

lemma scrape_base_keys: "dom p \<subseteq> dom (scrape_product_attributes self p)"
  using scrape_dom [of self UNIV p] by simp

text \<open>
  Claim C2. \<open>scrape_product_attributes\<close> is a total function to bags, for every object
  \<open>self\<close>, whatever its session and extractor methods return or raise: every exception of
  the try block is one of the two handlers' cases. The keys of the input record are in the
  returned bag. When the try block raises \<open>e\<close> with the dictionary in state \<open>a\<close>, the
  returned bag is \<open>a\<close> with the one key \<open>error\<close> set to the handler's message. The keys
  of the dictionary after any number of statements that ran without raising are in the
  returned bag.
\<close>

theorem item_processor_catches_faults:
  "dom product_data \<subseteq> dom (scrape_product_attributes self product_data) \<and>
   (\<forall>a e. get_or product_data ''url'' '''' \<noteq> [] \<longrightarrow>
      try_body self (get_or product_data ''url'' '''') product_data = (a, Some e) \<longrightarrow>
      scrape_product_attributes self product_data =
        a(''error'' \<mapsto> (case e of RequestException msg \<Rightarrow> ''Request error: '' @ msg
                                  | Exception msg \<Rightarrow> ''Processing error: '' @ msg))) \<and>
   (\<forall>r n b. get_or product_data ''url'' '''' \<noteq> [] \<longrightarrow>
      session_get self (get_or product_data ''url'' '''') = Inr r \<longrightarrow>
      raise_for_status r = Inr () \<longrightarrow>
      run (take n (extraction_steps self (content r) (get_text (content r))
                     (get_or product_data ''title'' ''''))) product_data = (b, None) \<longrightarrow>
      dom b \<subseteq> dom (scrape_product_attributes self product_data))"
proof (intro conjI allI impI)
  show "dom product_data \<subseteq> dom (scrape_product_attributes self product_data)"
    by (rule scrape_base_keys)
qed (erule (1) scrape_handler, erule (3) scrape_keeps_reached_keys)

definition faulty_scraper :: scraper where
  "faulty_scraper =
     (FeedAttributeScraper (\<lambda>url. Inr \<lparr>status_code = 200, reason = ''OK'', response_url = url,
          content = Tag ''[document]'' [NavigableString ''10 x 20 cm'']\<rparr>))
       \<lparr>weight_method := (\<lambda>text. Inl (Exception ''boom''))\<rparr>"

lemma faulty_dimensions: "extract_dimensions ''10 x 20 cm'' '''' = Some ''10 x 20 cm''"
  by code_simp

lemma faulty_steps:
  "run (take 1 (extraction_steps faulty_scraper (Tag ''[document]'' [NavigableString ''10 x 20 cm''])
                  ''10 x 20 cm'' '''')) [''url'' \<mapsto> ''http://example.com/p1''] =
     ([''url'' \<mapsto> ''http://example.com/p1'', ''size_dimensions'' \<mapsto> ''10 x 20 cm''], None)"
  by (simp add: extraction_steps_def faulty_scraper_def FeedAttributeScraper_def assign_if_def
      faulty_dimensions)

lemma faulty_try:
  "try_body faulty_scraper ''http://example.com/p1'' [''url'' \<mapsto> ''http://example.com/p1''] =
     ([''url'' \<mapsto> ''http://example.com/p1'', ''size_dimensions'' \<mapsto> ''10 x 20 cm''], Some (Exception ''boom''))"
  by (simp add: try_body_def extraction_steps_def faulty_scraper_def FeedAttributeScraper_def
      assign_if_def faulty_dimensions raise_for_status_def get_or_def)

text \<open>
  An object whose weight extractor raises, on a page with dimensions: the key
  \<open>size_dimensions\<close>, set before the exception, is kept beside the marker.
\<close>

theorem item_processor_catches_faults_witness:
  "get_or [''url'' \<mapsto> ''http://example.com/p1''] ''url'' '''' \<noteq> [] \<and>
   try_body faulty_scraper (get_or [''url'' \<mapsto> ''http://example.com/p1''] ''url'' '''')
     [''url'' \<mapsto> ''http://example.com/p1''] =
     ([''url'' \<mapsto> ''http://example.com/p1'', ''size_dimensions'' \<mapsto> ''10 x 20 cm''], Some (Exception ''boom'')) \<and>
   scrape_product_attributes faulty_scraper [''url'' \<mapsto> ''http://example.com/p1''] =
     [''url'' \<mapsto> ''http://example.com/p1'', ''size_dimensions'' \<mapsto> ''10 x 20 cm'',
      ''error'' \<mapsto> ''Processing error: boom''] \<and>
   session_get faulty_scraper (get_or [''url'' \<mapsto> ''http://example.com/p1''] ''url'' '''') =
     Inr \<lparr>status_code = 200, reason = ''OK'', response_url = ''http://example.com/p1'',
          content = Tag ''[document]'' [NavigableString ''10 x 20 cm'']\<rparr> \<and>
   raise_for_status \<lparr>status_code = 200, reason = ''OK'', response_url = ''http://example.com/p1'',
          content = Tag ''[document]'' [NavigableString ''10 x 20 cm'']\<rparr> = Inr () \<and>
   run (take 1 (extraction_steps faulty_scraper (Tag ''[document]'' [NavigableString ''10 x 20 cm''])
                  ''10 x 20 cm'' '''')) [''url'' \<mapsto> ''http://example.com/p1''] =
     ([''url'' \<mapsto> ''http://example.com/p1'', ''size_dimensions'' \<mapsto> ''10 x 20 cm''], None) \<and>
   dom [''url'' \<mapsto> ''http://example.com/p1'', ''size_dimensions'' \<mapsto> ''10 x 20 cm''] \<subseteq>
     dom (scrape_product_attributes faulty_scraper [''url'' \<mapsto> ''http://example.com/p1''])"
proof -
  have u: "get_or [''url'' \<mapsto> ''http://example.com/p1''] ''url'' '''' = ''http://example.com/p1''"
    by (simp add: get_or_def)
  have g: "session_get faulty_scraper ''http://example.com/p1'' =
     Inr \<lparr>status_code = 200, reason = ''OK'', response_url = ''http://example.com/p1'',
          content = Tag ''[document]'' [NavigableString ''10 x 20 cm'']\<rparr>"
    by (simp add: faulty_scraper_def FeedAttributeScraper_def)
  have s: "raise_for_status \<lparr>status_code = 200, reason = ''OK'', response_url = ''http://example.com/p1'',
          content = Tag ''[document]'' [NavigableString ''10 x 20 cm'']\<rparr> = Inr ()"
    by (simp add: raise_for_status_def)
  from item_processor_catches_faults [of "[''url'' \<mapsto> ''http://example.com/p1'']" faulty_scraper]
  show ?thesis
    using u g s faulty_try faulty_steps by (simp add: get_or_def)
qed

section \<open>The output of the Feed Parser\<close>

text \<open>The specification's reading of an item's link, written independently of the loop.\<close>

definition spec_field_text :: "string \<Rightarrow> element \<Rightarrow> string option" where
  \<comment> \<open>the text of the namespaced child if there is one, of the bare child otherwise\<close>
  "spec_field_text name item =
     (case filter (\<lambda>c. tag c = g_namespace @ name) (children item) of
        c # _ \<Rightarrow> text_of c
      | [] \<Rightarrow> (case filter (\<lambda>c. tag c = name) (children item) of c # _ \<Rightarrow> text_of c | [] \<Rightarrow> None))"

definition spec_accepted_url :: "element \<Rightarrow> string option" where
  \<comment> \<open>the trimmed link value when it begins with \<open>http\<close>\<close>
  "spec_accepted_url item =
     (case spec_field_text ''link'' item of
        None \<Rightarrow> None
      | Some t \<Rightarrow> if startswith ''http'' (strip t) then Some (strip t) else None)"

lemma find_filter_hd: "find P xs = (case filter P xs of [] \<Rightarrow> None | x # _ \<Rightarrow> Some x)"
  by (induction xs) simp_all

lemma startswith_http_nonempty: "startswith ''http'' (strip t) \<Longrightarrow> t \<noteq> []"
  by (cases t) (simp_all add: strip_def)

lemma truthy_text_spec:
  "truthy_text (find_field name item) =
     (case spec_field_text name item of None \<Rightarrow> None | Some t \<Rightarrow> if t \<noteq> [] then Some t else None)"
  by (simp add: truthy_text_def find_field_def find_child_def spec_field_text_def find_filter_hd
      split: list.splits option.splits)

lemma product_url: "product_of_item item ''url'' = spec_accepted_url item"
  using startswith_http_nonempty
  by (auto simp: product_of_item_def spec_accepted_url_def truthy_text_spec Let_def
      split: option.splits if_splits)

lemma items_loop_filter:
  "items_loop items products =
     products @ map product_of_item (filter (\<lambda>item. spec_accepted_url item \<noteq> None) items)"
proof (induction items arbitrary: products)
  case Nil
  then show ?case by simp
next
  case (Cons item items)
  have "''url'' \<in> dom (product_of_item item) \<longleftrightarrow> spec_accepted_url item \<noteq> None"
    by (simp add: domIff product_url)
  with Cons.IH show ?case by (simp add: Let_def)
qed

text \<open>
  Claim C6. For a well-formed feed the output is, in feed order, the record of each item
  whose link value (the trimmed text of the namespaced \<open>link\<close> child, or of the bare one
  when there is no namespaced one) begins with \<open>http\<close>: the URLs of the output are the
  accepted URLs of the items, an item without one is left out, and the length of the output
  is the number of items with an accepted URL.
\<close>

theorem feed_parser_output:
  "fst (extract_products_from_xml (WellFormed root)) =
     map product_of_item (filter (\<lambda>item. spec_accepted_url item \<noteq> None) (findall_items root)) \<and>
   map (\<lambda>product. product ''url'') (fst (extract_products_from_xml (WellFormed root))) =
     filter (\<lambda>url. url \<noteq> None) (map spec_accepted_url (findall_items root)) \<and>
   length (fst (extract_products_from_xml (WellFormed root))) =
     length (filter (\<lambda>item. spec_accepted_url item \<noteq> None) (findall_items root))"
proof -
  have "fst (extract_products_from_xml (WellFormed root)) =
     map product_of_item (filter (\<lambda>item. spec_accepted_url item \<noteq> None) (findall_items root))"
    by (simp add: extract_products_from_xml_def items_loop_filter)
  moreover have "map (\<lambda>product. product ''url'') (map product_of_item (filter (\<lambda>item. spec_accepted_url item \<noteq> None) items)) =
     filter (\<lambda>url. url \<noteq> None) (map spec_accepted_url items)" for items
    by (induction items) (simp_all add: product_url)
  ultimately show ?thesis by simp
qed

definition example_feed :: element where
  "example_feed =
     Element ''rss'' None
       [Element ''channel'' None
          [Element ''item'' None
             [Element (g_namespace @ ''id'') (Some ''1'') [],
              Element (g_namespace @ ''link'') (Some ''http://example.com/p1'') []],
           Element ''item'' None
             [Element ''id'' (Some ''2'') [],
              Element ''link'' (Some ''ftp://example.com/p2'') []],
           Element ''item'' None
             [Element ''title'' (Some ''Third'') []],
           Element ''item'' None
             [Element ''link'' (Some ''  http://example.com/p4 '') []]]]"

lemma example_items: "map spec_accepted_url (findall_items example_feed) =
    [Some ''http://example.com/p1'', None, None, Some ''http://example.com/p4'']"
  by code_simp

text \<open>
  Four items: a namespaced link, a link that is not an \<open>http\<close> one, no link, and a bare link
  with spaces around it. The first and the last are kept.
\<close>

theorem feed_parser_output_witness:
  "map (\<lambda>product. product ''url'') (fst (extract_products_from_xml (WellFormed example_feed))) =
     [Some ''http://example.com/p1'', Some ''http://example.com/p4''] \<and>
   length (fst (extract_products_from_xml (WellFormed example_feed))) = 2"
proof -
  note t = feed_parser_output [of example_feed]
  have l: "length (filter (\<lambda>item. spec_accepted_url item \<noteq> None) (findall_items example_feed)) =
        length (filter (\<lambda>url. url \<noteq> None) (map spec_accepted_url (findall_items example_feed)))"
    by (simp only: filter_map comp_def length_map)
  from t [THEN conjunct2, THEN conjunct1] have u: "map (\<lambda>product. product ''url'')
      (fst (extract_products_from_xml (WellFormed example_feed))) =
      filter (\<lambda>url. url \<noteq> None) (map spec_accepted_url (findall_items example_feed))" .
  from t [THEN conjunct2, THEN conjunct2] l have n: "length (fst (extract_products_from_xml (WellFormed example_feed))) =
      length (filter (\<lambda>url. url \<noteq> None) (map spec_accepted_url (findall_items example_feed)))"
    by (rule trans)
  show ?thesis
    unfolding u n example_items by simp
qed

section \<open>The extractors do not raise\<close>

text \<open>
  A group that every alternative of a pattern goes through is set in every match of the
  pattern. In each pattern of the colour, material and pattern extractors this holds of
  group 1, so that \<open>match.group(1).strip()\<close> never meets \<open>None\<close>.
\<close>

fun sets_group :: "nat \<Rightarrow> regex \<Rightarrow> bool" where
  "sets_group n (Group m a) = (n = m \<or> sets_group n a)"
| "sets_group n (Seq a b) = (sets_group n a \<or> sets_group n b)"
| "sets_group n (Alt a b) = (sets_group n a \<and> sets_group n b)"
| "sets_group n _ = False"

fun captured :: "mstate \<Rightarrow> nat set" where
  "captured (p, r, g) = fst ` set g"

lemma star_captured:
  "(\<And>s s'. s' \<in> set (f s) \<Longrightarrow> captured s \<subseteq> captured s') \<Longrightarrow>
   s' \<in> set (star greedy f s) \<Longrightarrow> captured s \<subseteq> captured s'"
proof (induction greedy f s arbitrary: s' rule: star.induct)
  case (1 greedy f s)
  from "1.prems"(2) have "s' = s \<or> (\<exists>t \<in> set (f s). length (rest_of t) < length (rest_of s) \<and> s' \<in> set (star greedy f t))"
    by (subst (asm) star.simps) (auto simp: Let_def split: if_splits)
  then show ?case
  proof
    assume "s' = s"
    then show ?thesis by simp
  next
    assume "\<exists>t \<in> set (f s). length (rest_of t) < length (rest_of s) \<and> s' \<in> set (star greedy f t)"
    then obtain t where t: "t \<in> set (f s)" "length (rest_of t) < length (rest_of s)"
      "s' \<in> set (star greedy f t)" by blast
    from "1.IH" [OF t(1) t(2) "1.prems"(1) t(3)] "1.prems"(1) [OF t(1)] show ?thesis by blast
  qed
qed

lemma matches_captured:
  "s' \<in> set (matches ic re s) \<Longrightarrow> captured s \<subseteq> captured s' \<and> (sets_group n re \<longrightarrow> n \<in> captured s')"
proof (induction re arbitrary: s s')
  case (Sym cl)
  then show ?case by (cases s) (force split: list.splits if_splits)
next
  case AnyChar
  then show ?case by (cases s) (force split: list.splits if_splits)
next
  case WordB
  then show ?case by (cases s) (auto split: if_splits)
next
  case Bol
  then show ?case by (cases s) (auto split: if_splits)
next
  case Eol
  then show ?case by (cases s) (auto split: if_splits)
next
  case Eps
  then show ?case by simp
next
  case (Seq a b)
  from Seq.prems obtain t where t: "t \<in> set (matches ic a s)" "s' \<in> set (matches ic b t)" by auto
  from Seq.IH(1) [OF t(1)] Seq.IH(2) [OF t(2)] show ?case by auto
next
  case (Alt a b)
  from Alt.prems have "s' \<in> set (matches ic a s) \<or> s' \<in> set (matches ic b s)" by auto
  then show ?case
  proof
    assume "s' \<in> set (matches ic a s)"
    from Alt.IH(1) [OF this] show ?thesis by simp
  next
    assume "s' \<in> set (matches ic b s)"
    from Alt.IH(2) [OF this] show ?thesis by simp
  qed
next
  case (Star a)
  have f: "\<And>s s'. s' \<in> set (matches ic a s) \<Longrightarrow> captured s \<subseteq> captured s'"
    using Star.IH by blast
  from Star.prems have "s' \<in> set (star True (matches ic a) s)" by simp
  from star_captured [OF f this] show ?case by simp
next
  case (LazyStar a)
  have f: "\<And>s s'. s' \<in> set (matches ic a s) \<Longrightarrow> captured s \<subseteq> captured s'"
    using LazyStar.IH by blast
  from LazyStar.prems have "s' \<in> set (star False (matches ic a) s)" by simp
  from star_captured [OF f this] show ?case by simp
next
  case (Group m a)
  from Group.prems obtain t where t: "t \<in> set (matches ic a s)" "s' = set_group m s t" by auto
  from Group.IH [OF t(1)] t(2) show ?case
    by (cases s; cases t) auto
qed

lemma search_from_group:
  "search_from ic re i p s = Some m \<Longrightarrow> sets_group n re \<Longrightarrow> n \<in> fst ` set (m_groups m)"
proof (induction s arbitrary: i p)
  case Nil
  from Nil.prems(1) obtain p' s' g where h: "matches ic re (p, [], []) = (p', s', g) # tl (matches ic re (p, [], []))"
    and m: "m_groups m = g"
    by (auto split: list.splits)
  then have "(p', s', g) \<in> set (matches ic re (p, [], []))" by (metis list.set_intros(1))
  from matches_captured [OF this, of n] Nil.prems(2) m show ?case by simp
next
  case (Cons c cs)
  show ?case
  proof (cases "matches ic re (p, c # cs, [])")
    case Nil
    with Cons.prems(1) have "search_from ic re (Suc i) (Some c) cs = Some m" by simp
    from Cons.IH [OF this Cons.prems(2)] show ?thesis .
  next
    case (Cons st sts)
    obtain p' s' g where st: "st = (p', s', g)" by (cases st)
    with Cons Cons.prems(1) have m: "m_groups m = g" by auto
    from Cons st have "(p', s', g) \<in> set (matches ic re (p, c # cs, []))" by simp
    from matches_captured [OF this, of n] \<open>sets_group n re\<close> m show ?thesis by simp
  qed
qed

lemma re_search_group:
  "re_search ic re s = Some m \<Longrightarrow> sets_group n re \<Longrightarrow> 0 < n \<Longrightarrow> \<exists>g. m_group m n = Some g"
proof -
  assume a: "re_search ic re s = Some m" "sets_group n re" "0 < n"
  from search_from_group [of ic re 0 None s m n] a have "n \<in> fst ` set (m_groups m)"
    by (simp add: re_search_def)
  then have "map_of (m_groups m) n \<noteq> None" by (simp add: map_of_eq_None_iff)
  with a(3) show ?thesis by (simp add: m_group_def)
qed

lemma group1_strip_returns:
  "re_search ic re s = Some m \<Longrightarrow> sets_group 1 re \<Longrightarrow> \<exists>g. group1_strip m = Inr g"
  using re_search_group [of ic re s m 1] by (auto simp: group1_strip_def)

lemma sets_group_cat [simp]: "sets_group n (cat rs) = (\<exists>r \<in> set rs. sets_group n r)"
  by (induction rs) (simp_all add: cat_def)

lemma colour_patterns_group: "\<forall>re \<in> set colour_patterns. sets_group 1 re"
  by (simp add: colour_patterns_def)

lemma material_patterns_group: "\<forall>re \<in> set material_patterns. sets_group 1 re"
  by (simp add: material_patterns_def)

lemma pattern_pattern_group: "sets_group 1 pattern_pattern"
  by (simp add: pattern_pattern_def)

lemma labelled_colour_returns:
  "\<forall>re \<in> set patterns. sets_group 1 re \<Longrightarrow> \<exists>v. labelled_colour patterns s = Inr v"
proof (induction patterns)
  case Nil
  then show ?case by simp
next
  case (Cons re patterns)
  show ?case
  proof (cases "re_search True re s")
    case None
    with Cons show ?thesis by simp
  next
    case (Some m)
    from group1_strip_returns [OF Some] Cons.prems obtain g where "group1_strip m = Inr g" by auto
    with Some Cons show ?thesis by (simp add: Let_def split: option.splits)
  qed
qed

lemma first_group_returns:
  "\<forall>re \<in> set patterns. sets_group 1 re \<Longrightarrow> \<exists>v. first_group patterns s = Inr v"
proof (induction patterns)
  case Nil
  then show ?case by simp
next
  case (Cons re patterns)
  show ?case
  proof (cases "re_search True re s")
    case None
    with Cons show ?thesis by simp
  next
    case (Some m)
    from group1_strip_returns [OF Some] Cons.prems obtain g where "group1_strip m = Inr g" by auto
    with Some show ?thesis by simp
  qed
qed

lemma extract_colour_returns: "\<exists>v. extract_colour text soup title = Inr v"
  using labelled_colour_returns [OF colour_patterns_group, of "title @ '' '' @ text"]
  by (auto simp: extract_colour_def Let_def split: option.splits)

lemma extract_material_returns: "\<exists>v. extract_material text = Inr v"
  using first_group_returns [OF material_patterns_group, of "text"]
  by (auto simp: extract_material_def Let_def split: option.splits)

lemma extract_pattern_returns: "\<exists>v. extract_pattern text = Inr v"
proof (cases "re_search True pattern_pattern text")
  case None
  then show ?thesis by (simp add: extract_pattern_def Let_def)
next
  case (Some m)
  from group1_strip_returns [OF Some pattern_pattern_group] obtain g where "group1_strip m = Inr g" by auto
  with Some show ?thesis by (simp add: extract_pattern_def)
qed

section \<open>Table scan and regex extraction\<close>

subsection \<open>The table scan, row by row\<close>

definition scanned_rows :: "node \<Rightarrow> node list" where
  \<comment> \<open>the rows in the order of the scan: table after table, each table's rows in document order\<close>
  "scanned_rows soup = concat (map (find_all [''tr'']) (find_all [''table''] soup))"

definition spec_classify :: "string \<Rightarrow> string option" where
  \<comment> \<open>the key that the text of a row's first cell is classified to\<close>
  "spec_classify key =
     (if contains ''dimension'' key \<or> contains ''size'' key then Some ''size''
      else if contains ''weight'' key then Some ''weight''
      else if contains ''colour'' key \<or> contains ''color'' key then Some ''colour''
      else if contains ''material'' key then Some ''material''
      else None)"

definition spec_row_entry :: "node \<Rightarrow> (string \<times> string) option" where
  \<comment> \<open>the key and the value of a qualifying row: one with two cells or more and a classified key\<close>
  "spec_row_entry row =
     (let cells = find_all [''td'', ''th''] row in
      if length cells \<ge> 2 then
        (case spec_classify (lower (strip (get_text (cells ! 0)))) of
           Some k \<Rightarrow> Some (k, strip (get_text (cells ! 1)))
         | None \<Rightarrow> None)
      else None)"

definition spec_table_entries :: "node \<Rightarrow> (string \<times> string) list" where
  "spec_table_entries soup = List.map_filter spec_row_entry (scanned_rows soup)"

definition last_value :: "string \<Rightarrow> (string \<times> string) list \<Rightarrow> string option" where
  \<comment> \<open>the value of the last entry with that key\<close>
  "last_value k entries =
     (let qualifying = filter (\<lambda>e. fst e = k) entries
      in if qualifying = [] then None else Some (snd (last qualifying)))"

lemma scan_row_entry:
  "scan_row row data = (case spec_row_entry row of None \<Rightarrow> data | Some (k, v) \<Rightarrow> data(k \<mapsto> v))"
  by (simp add: scan_row_def spec_row_entry_def spec_classify_def Let_def)

lemma last_value_snoc:
  "last_value k (entries @ [(k', v)]) = (if k' = k then Some v else last_value k entries)"
  by (simp add: last_value_def)

lemma foldl_rows_last:
  "foldl (\<lambda>data row. scan_row row data) data rows k =
     (case last_value k (List.map_filter spec_row_entry rows) of None \<Rightarrow> data k | Some v \<Rightarrow> Some v)"
proof (induction rows rule: rev_induct)
  case Nil
  then show ?case by (simp add: last_value_def)
next
  case (snoc row rows)
  show ?case
  proof (cases "spec_row_entry row")
    case None
    with snoc show ?thesis by (simp add: scan_row_entry map_filter_def)
  next
    case (Some e)
    obtain k' v where e: "e = (k', v)" by (cases e)
    with Some have m: "List.map_filter spec_row_entry (rows @ [row]) =
        List.map_filter spec_row_entry rows @ [(k', v)]"
      by (simp add: map_filter_def)
    from snoc Some e show ?thesis
      by (simp add: scan_row_entry m last_value_snoc)
  qed
qed

lemma foldl_tables_rows:
  "foldl (\<lambda>data table. foldl f data (rows_of table)) data tables =
     foldl f data (concat (map rows_of tables))"
  by (induction tables arbitrary: data) simp_all

lemma extract_table_data_last:
  "extract_table_data soup k = last_value k (spec_table_entries soup)"
proof -
  have "extract_table_data soup =
      foldl (\<lambda>data row. scan_row row data) Map.empty (scanned_rows soup)"
    unfolding extract_table_data_def scanned_rows_def
    by (rule foldl_tables_rows [of "\<lambda>data row. scan_row row data" "find_all [''tr'']"])
  then show ?thesis
    by (simp add: foldl_rows_last spec_table_entries_def split: option.splits)
qed

subsection \<open>The bag of a successful fetch\<close>

definition keep_truthy :: "string option \<Rightarrow> string option" where
  "keep_truthy v = (if truthy v then v else None)"

definition returned :: "string option raising \<Rightarrow> string option" where
  "returned call = (case call of Inr v \<Rightarrow> v | Inl e \<Rightarrow> None)"

definition spec_regex_attributes :: "string \<Rightarrow> node \<Rightarrow> string \<Rightarrow> attributes" where
  \<comment> \<open>what the six regex extractors find, each under its own key\<close>
  "spec_regex_attributes text soup title =
     (\<lambda>k. if k = ''size_dimensions'' then keep_truthy (extract_dimensions text title)
          else if k = ''weight'' then keep_truthy (extract_weight text)
          else if k = ''color'' then keep_truthy (returned (extract_colour text soup title))
          else if k = ''material'' then keep_truthy (returned (extract_material text))
          else if k = ''pattern'' then keep_truthy (returned (extract_pattern text))
          else if k = ''size'' then keep_truthy (extract_size text title)
          else None)"

lemma assign_if_returned:
  "assign_if key (Inr v) a = Inr (\<lambda>k. if k = key then (case keep_truthy v of Some x \<Rightarrow> Some x | None \<Rightarrow> a k) else a k)"
  by (auto simp: assign_if_def keep_truthy_def truthy_def fun_eq_iff split: option.splits)

lemma run_extraction_steps:
  "\<exists>a. run (extraction_steps (FeedAttributeScraper net) soup text title) p = (a, None) \<and>
       a = (p ++ spec_regex_attributes text soup title) ++ extract_table_data soup"
proof -
  obtain c where c: "extract_colour text soup title = Inr c" using extract_colour_returns by blast
  obtain m where m: "extract_material text = Inr m" using extract_material_returns by blast
  obtain q where q: "extract_pattern text = Inr q" using extract_pattern_returns by blast
  have "run (extraction_steps (FeedAttributeScraper net) soup text title) p =
      ((p ++ spec_regex_attributes text soup title) ++ extract_table_data soup, None)"
    unfolding extraction_steps_def FeedAttributeScraper_def
    apply (simp add: c m q assign_if_returned update_with_def)
    apply (rule ext)
    apply (simp add: map_add_def spec_regex_attributes_def returned_def c m q split: option.splits)
    done
  then show ?thesis by blast
qed

lemma scrape_fetched:
  assumes "get_or p ''url'' '''' \<noteq> []" and "net (get_or p ''url'' '''') = Inr r" and "raise_for_status r = Inr ()"
  shows "scrape_product_attributes (FeedAttributeScraper net) p =
     (p ++ spec_regex_attributes (get_text (content r)) (content r) (get_or p ''title'' '''')) ++
       extract_table_data (content r)"
proof -
  from run_extraction_steps [of net "content r" "get_text (content r)" "get_or p ''title'' ''''" p]
  have "run (extraction_steps (FeedAttributeScraper net) (content r) (get_text (content r)) (get_or p ''title'' '''')) p =
      ((p ++ spec_regex_attributes (get_text (content r)) (content r) (get_or p ''title'' '''')) ++
        extract_table_data (content r), None)" by blast
  moreover have "session_get (FeedAttributeScraper net) = net" by (simp add: FeedAttributeScraper_def)
  ultimately show ?thesis using assms
    by (simp add: scrape_product_attributes_def try_body_def Let_def)
qed

lemma spec_regex_attributes_other:
  "k \<notin> {''size_dimensions'', ''weight'', ''color'', ''material'', ''pattern'', ''size''} \<Longrightarrow>
   spec_regex_attributes text soup title k = None"
  by (simp add: spec_regex_attributes_def)

lemma regex_keeps_record:
  assumes "dom p \<subseteq> {''id'', ''title'', ''url''}" and "k \<in> dom p"
  shows "(p ++ spec_regex_attributes text soup title) k = p k"
proof -
  from assms have "k \<in> {''id'', ''title'', ''url''}" by (rule rev_subsetD [rotated])
  then have "k \<notin> {''size_dimensions'', ''weight'', ''color'', ''material'', ''pattern'', ''size''}"
    by auto
  then have "spec_regex_attributes text soup title k = None"
    by (rule spec_regex_attributes_other)
  then show ?thesis by (simp add: map_add_def)
qed

text \<open>
  Claim C4. The table scan maps a key to the value of the last row, in the order of the
  scan, that is classified to it. After a successful fetch the returned bag is the input
  record, overlaid with what the regex extractors found, overlaid with the table scan: a
  regex extractor writes under its own key, which is none of \<open>id\<close>, \<open>title\<close>, \<open>url\<close>, so
  that the fields of an item record keep their values; and under every key of the table
  scan the bag has the table's value, whatever a regex extractor had found for it.
\<close>

theorem table_scan_layering:
  "extract_table_data soup k = last_value k (spec_table_entries soup) \<and>
   (get_or product_data ''url'' '''' \<noteq> [] \<and> net (get_or product_data ''url'' '''') = Inr r \<and>
    raise_for_status r = Inr () \<longrightarrow>
      scrape_product_attributes (FeedAttributeScraper net) product_data =
        (product_data ++ spec_regex_attributes (get_text (content r)) (content r)
                           (get_or product_data ''title'' '''')) ++
        extract_table_data (content r)) \<and>
   (dom product_data \<subseteq> {''id'', ''title'', ''url''} \<longrightarrow>
      (\<forall>key \<in> dom product_data.
         (product_data ++ spec_regex_attributes text soup title) key = product_data key)) \<and>
   (\<forall>key \<in> dom (extract_table_data soup).
      ((product_data ++ spec_regex_attributes text soup title) ++ extract_table_data soup) key =
        extract_table_data soup key)"
proof (intro conjI impI ballI)
  show "extract_table_data soup k = last_value k (spec_table_entries soup)"
    by (rule extract_table_data_last)
next
  assume "get_or product_data ''url'' '''' \<noteq> [] \<and> net (get_or product_data ''url'' '''') = Inr r \<and>
    raise_for_status r = Inr ()"
  then show "scrape_product_attributes (FeedAttributeScraper net) product_data =
        (product_data ++ spec_regex_attributes (get_text (content r)) (content r)
                           (get_or product_data ''title'' '''')) ++
        extract_table_data (content r)"
    by (simp add: scrape_fetched)
next
  fix key
  assume "dom product_data \<subseteq> {''id'', ''title'', ''url''}" and "key \<in> dom product_data"
  then show "(product_data ++ spec_regex_attributes text soup title) key = product_data key"
    by (rule regex_keeps_record)
next
  fix key
  assume "key \<in> dom (extract_table_data soup)"
  then show "((product_data ++ spec_regex_attributes text soup title) ++ extract_table_data soup) key =
        extract_table_data soup key"
    by (auto simp: map_add_def)
qed


definition table_page :: node where
  "table_page =
     Tag ''[document]''
       [Tag ''p'' [NavigableString ''Weight: 2 kg''],
        Tag ''table''
          [Tag ''tr'' [Tag ''td'' [NavigableString ''Weight''], Tag ''td'' [NavigableString ''3 kg'']],
           Tag ''tr'' [Tag ''th'' [NavigableString ''Net weight''], Tag ''td'' [NavigableString '' 4 kg '']]]]"

definition table_response :: response where
  "table_response = \<lparr>status_code = 200, reason = ''OK'', response_url = ''http://example.com/p1'',
                      content = table_page\<rparr>"

lemma table_page_entries:
  "spec_table_entries table_page = [(''weight'', ''3 kg''), (''weight'', ''4 kg'')]"
  by code_simp

lemma table_page_weight: "extract_weight (get_text table_page) = Some ''Weight: 2 kg''"
  by code_simp

text \<open>
  A page with a weight in its text and a table with two weight rows: the table scan gives
  the second row's value, and this value is the one in the bag.
\<close>

theorem table_scan_layering_witness:
  "extract_table_data table_page ''weight'' = Some ''4 kg'' \<and>
   get_or [''id'' \<mapsto> ''7'', ''url'' \<mapsto> ''http://example.com/p1''] ''url'' '''' \<noteq> [] \<and>
   (\<lambda>url. Inr table_response) (get_or [''id'' \<mapsto> ''7'', ''url'' \<mapsto> ''http://example.com/p1''] ''url'' '''') =
     Inr table_response \<and>
   raise_for_status table_response = Inr () \<and>
   spec_regex_attributes (get_text table_page) table_page '''' ''weight'' = Some ''Weight: 2 kg'' \<and>
   scrape_product_attributes (FeedAttributeScraper (\<lambda>url. Inr table_response))
     [''id'' \<mapsto> ''7'', ''url'' \<mapsto> ''http://example.com/p1''] ''weight'' = Some ''4 kg'' \<and>
   dom [''id'' \<mapsto> ''7'', ''url'' \<mapsto> ''http://example.com/p1''] \<subseteq> {''id'', ''title'', ''url''} \<and>
   scrape_product_attributes (FeedAttributeScraper (\<lambda>url. Inr table_response))
     [''id'' \<mapsto> ''7'', ''url'' \<mapsto> ''http://example.com/p1''] ''id'' = Some ''7''"
proof -
  let ?p = "[''id'' \<mapsto> ''7'', ''url'' \<mapsto> ''http://example.com/p1'']"
  let ?R = "spec_regex_attributes (get_text table_page) table_page ''''"
  have u: "get_or ?p ''url'' '''' \<noteq> []" by (simp add: get_or_def)
  have s: "raise_for_status table_response = Inr ()"
    by (simp add: raise_for_status_def table_response_def)
  have c: "content table_response = table_page" by (simp add: table_response_def)
  have t: "get_or ?p ''title'' '''' = ''''" by (simp add: get_or_def)
  have d: "dom ?p \<subseteq> {''id'', ''title'', ''url''}" by simp
  note w = table_scan_layering [of table_page "''weight''" ?p "\<lambda>url. Inr table_response" table_response
      "get_text table_page" "''''"]
  note i = table_scan_layering [of table_page "''id''" ?p "\<lambda>url. Inr table_response" table_response
      "get_text table_page" "''''"]
  from w have tw: "extract_table_data table_page ''weight'' = Some ''4 kg''"
    by (simp add: table_page_entries last_value_def)
  from i have ti: "extract_table_data table_page ''id'' = None"
    by (simp add: table_page_entries last_value_def)
  from w u s have e: "scrape_product_attributes (FeedAttributeScraper (\<lambda>url. Inr table_response)) ?p =
      (?p ++ ?R) ++ extract_table_data table_page"
    by (simp add: c t)
  have rw: "?R ''weight'' = Some ''Weight: 2 kg''"
    by (simp add: spec_regex_attributes_def table_page_weight keep_truthy_def truthy_def)
  from i d have "(?p ++ ?R) ''id'' = ?p ''id''" by simp
  with ti have ri: "((?p ++ ?R) ++ extract_table_data table_page) ''id'' = Some ''7''"
    by (simp add: map_add_def)
  from tw have rt: "((?p ++ ?R) ++ extract_table_data table_page) ''weight'' = Some ''4 kg''"
    by (simp add: map_add_def)
  show ?thesis
    unfolding e using tw u s rw rt ri d by simp
qed

section \<open>Determinism\<close>








section \<open>Scenario A\<close>

definition scenario_feed :: element where
  "scenario_feed =
     Element ''rss'' None
       [Element ''channel'' None
          [Element ''item'' None
             [Element ''title'' (Some ''Blue Cotton Scarf M'') [],
              Element ''link'' (Some ''http://example.com/p1'') []]]]"

definition scenario_text :: string where
  "scenario_text = ''Colour: Blue. Material: Cotton. Size: M. Weight: 0.3 kg.''"

definition scenario_title :: string where
  "scenario_title = ''Blue Cotton Scarf M''"

lemma scenario_products:
  "map (\<lambda>product. (product ''title'', product ''url'', product ''weight'', product ''color'',
                    product ''material'', product ''size'', product ''error''))
     (fst (extract_products_from_xml (WellFormed scenario_feed))) =
   [(Some ''Blue Cotton Scarf M'', Some ''http://example.com/p1'', None, None, None, None, None)]"
  by code_simp

lemma scenario_dimensions: "extract_dimensions scenario_text scenario_title = None"
  by code_simp

lemma scenario_weight: "extract_weight scenario_text = Some ''Weight: 0.3 kg''"
  by code_simp

lemma scenario_colour: "extract_colour scenario_text soup scenario_title = Inr (Some ''Blue'')"
  unfolding extract_colour_def by code_simp

lemma scenario_material: "extract_material scenario_text = Inr (Some ''Cotton'')"
  by code_simp

lemma scenario_pattern: "extract_pattern scenario_text = Inr None"
  by code_simp

lemma scenario_size: "extract_size scenario_text scenario_title = Some ''M''"
  by code_simp

lemma no_tables: "find_all [''table''] soup = [] \<Longrightarrow> extract_table_data soup = Map.empty"
  by (simp add: extract_table_data_def)

lemma scenario_attributes:
  "spec_regex_attributes scenario_text soup scenario_title =
     [''weight'' \<mapsto> ''Weight: 0.3 kg'', ''color'' \<mapsto> ''Blue'', ''material'' \<mapsto> ''Cotton'', ''size'' \<mapsto> ''M'']"
  by (rule ext)
    (simp add: spec_regex_attributes_def scenario_dimensions scenario_weight scenario_colour
      scenario_material scenario_pattern scenario_size keep_truthy_def truthy_def returned_def)

text \<open>
  Claim C1. Scenario A: the feed has one item, with the title \<open>Blue Cotton Scarf M\<close> and
  the link \<open>http://example.com/p1\<close>; the page fetched from that link has the given text and
  no table, and its status is no error. Then a run has one bag, which maps \<open>color\<close> to
  \<open>Blue\<close>, \<open>material\<close> to \<open>Cotton\<close>, \<open>size\<close> to \<open>M\<close>, \<open>weight\<close> to \<open>Weight: 0.3 kg\<close>,
  and has no \<open>error\<close> key.
\<close>

theorem scenario_a:
  "get_text (content r) = scenario_text \<and> find_all [''table''] (content r) = [] \<and>
   net ''http://example.com/p1'' = Inr r \<and> raise_for_status r = Inr () \<longrightarrow>
     map (\<lambda>bag. (bag ''color'', bag ''material'', bag ''size'', bag ''weight'', bag ''error''))
       (main (FeedAttributeScraper net) max_urls (WellFormed scenario_feed)) =
     [(Some ''Blue'', Some ''Cotton'', Some ''M'', Some ''Weight: 0.3 kg'', None)]"
proof
  assume h: "get_text (content r) = scenario_text \<and> find_all [''table''] (content r) = [] \<and>
   net ''http://example.com/p1'' = Inr r \<and> raise_for_status r = Inr ()"
  from scenario_products obtain p where
    p: "fst (extract_products_from_xml (WellFormed scenario_feed)) = [p]"
    and f: "p ''title'' = Some ''Blue Cotton Scarf M''" "p ''url'' = Some ''http://example.com/p1''"
      "p ''weight'' = None" "p ''color'' = None" "p ''material'' = None" "p ''size'' = None"
      "p ''error'' = None"
    by auto
  from f have u: "get_or p ''url'' '''' = ''http://example.com/p1''"
    and t: "get_or p ''title'' '''' = scenario_title"
    by (simp_all add: get_or_def scenario_title_def)
  from h u have "scrape_product_attributes (FeedAttributeScraper net) p =
      (p ++ spec_regex_attributes (get_text (content r)) (content r) (get_or p ''title'' '''')) ++
        extract_table_data (content r)"
    by (intro scrape_fetched) simp_all
  with h t have s: "scrape_product_attributes (FeedAttributeScraper net) p =
      p ++ [''weight'' \<mapsto> ''Weight: 0.3 kg'', ''color'' \<mapsto> ''Blue'', ''material'' \<mapsto> ''Cotton'', ''size'' \<mapsto> ''M'']"
    by (simp add: no_tables scenario_attributes)
  have "main (FeedAttributeScraper net) max_urls (WellFormed scenario_feed) =
      [scrape_product_attributes (FeedAttributeScraper net) p]"
    by (simp add: main_def p scrape_all_def apply_limit_def scrape_loop_map Let_def)
  then show "map (\<lambda>bag. (bag ''color'', bag ''material'', bag ''size'', bag ''weight'', bag ''error''))
       (main (FeedAttributeScraper net) max_urls (WellFormed scenario_feed)) =
     [(Some ''Blue'', Some ''Cotton'', Some ''M'', Some ''Weight: 0.3 kg'', None)]"
    by (simp add: s f map_add_def)
qed

definition scenario_response :: response where
  "scenario_response =
     \<lparr>status_code = 200, reason = ''OK'', response_url = ''http://example.com/p1'',
      content = Tag ''[document]''
        [Tag ''html''
           [Tag ''body''
              [Tag ''p'' [NavigableString ''Colour: Blue. Material: Cotton. ''],
               Tag ''p'' [NavigableString ''Size: M. Weight: 0.3 kg.'']]]]\<rparr>"

lemma scenario_response_text:
  "get_text (content scenario_response) = scenario_text"
  by code_simp

lemma scenario_response_tables:
  "find_all [''table''] (content scenario_response) = []"
  by code_simp

text \<open>A page of two paragraphs with that text, answered with status 200.\<close>

theorem scenario_a_witness:
  "get_text (content scenario_response) = scenario_text \<and>
   find_all [''table''] (content scenario_response) = [] \<and>
   (\<lambda>url. Inr scenario_response) ''http://example.com/p1'' = Inr scenario_response \<and>
   raise_for_status scenario_response = Inr () \<and>
   map (\<lambda>bag. (bag ''color'', bag ''material'', bag ''size'', bag ''weight'', bag ''error''))
     (main (FeedAttributeScraper (\<lambda>url. Inr scenario_response)) 0 (WellFormed scenario_feed)) =
     [(Some ''Blue'', Some ''Cotton'', Some ''M'', Some ''Weight: 0.3 kg'', None)]"
proof -
  have s: "raise_for_status scenario_response = Inr ()"
    by (simp add: raise_for_status_def scenario_response_def)
  from scenario_a [of scenario_response "\<lambda>url. Inr scenario_response" 0]
    scenario_response_text scenario_response_tables s
  show ?thesis by simp
qed

section \<open>The colour extractor and whole words\<close>

subsection \<open>Whole-word occurrences\<close>

text \<open>
  The specification's notion, written without the matcher: a word occurs as a whole word in
  a text when the text splits into a part before it, the word, and a part after it, such
  that no word character stands directly before or directly after the word.
\<close>

fun splits :: "string \<Rightarrow> (string \<times> string) list" where
  "splits [] = [([], [])]"
| "splits (c # s) = ([], c # s) # map (\<lambda>(pre, rest). (c # pre, rest)) (splits s)"

definition occurs_as_word :: "string \<Rightarrow> string \<Rightarrow> bool" where
  "occurs_as_word w s =
     list_ex (\<lambda>(pre, rest).
        startswith w rest \<and>
        (pre = [] \<or> \<not> isword (last pre)) \<and>
        (drop (length w) rest = [] \<or> \<not> isword (hd (drop (length w) rest)))) (splits s)"

lemma set_splits: "set (splits s) = {(pre, rest). pre @ rest = s}"
proof (induction s)
  case Nil
  then show ?case by auto
next
  case (Cons c s)
  show ?case
  proof (intro equalityI subsetI)
    fix x assume "x \<in> set (splits (c # s))"
    with Cons show "x \<in> {(pre, rest). pre @ rest = c # s}" by auto
  next
    fix x assume x: "x \<in> {(pre, rest). pre @ rest = c # s}"
    obtain pre rest where pr: "x = (pre, rest)" by (cases x)
    with x have e: "pre @ rest = c # s" by simp
    show "x \<in> set (splits (c # s))"
    proof (cases pre)
      case Nil
      with e pr show ?thesis by simp
    next
      case (Cons a pre')
      with e have "a = c" "pre' @ rest = s" by simp_all
      with Cons.IH have "(pre', rest) \<in> set (splits s)" by simp
      with Cons pr \<open>a = c\<close> show ?thesis by force
    qed
  qed
qed

lemma startswith_append: "startswith w s \<longleftrightarrow> (\<exists>post. s = w @ post)"
  by (induction w s rule: startswith.induct) auto

lemma occurs_as_word_iff:
  "occurs_as_word w s \<longleftrightarrow>
     (\<exists>pre post. s = pre @ w @ post \<and> (pre = [] \<or> \<not> isword (last pre)) \<and>
                 (post = [] \<or> \<not> isword (hd post)))"
proof
  assume "occurs_as_word w s"
  then obtain pre rest where pr: "(pre, rest) \<in> set (splits s)" "startswith w rest"
      "pre = [] \<or> \<not> isword (last pre)"
      "drop (length w) rest = [] \<or> \<not> isword (hd (drop (length w) rest))"
    by (auto simp: occurs_as_word_def list_ex_iff)
  from pr(2) obtain post where post: "rest = w @ post" by (auto simp: startswith_append)
  from pr(1) have "pre @ rest = s" by (simp add: set_splits)
  with post pr(3,4) show "\<exists>pre post. s = pre @ w @ post \<and> (pre = [] \<or> \<not> isword (last pre)) \<and>
                 (post = [] \<or> \<not> isword (hd post))"
    by (intro exI [of _ pre] exI [of _ post]) simp
next
  assume "\<exists>pre post. s = pre @ w @ post \<and> (pre = [] \<or> \<not> isword (last pre)) \<and>
                 (post = [] \<or> \<not> isword (hd post))"
  then obtain pre post where pp: "s = pre @ w @ post" "pre = [] \<or> \<not> isword (last pre)"
      "post = [] \<or> \<not> isword (hd post)" by blast
  then have "(pre, w @ post) \<in> set (splits s)" by (simp add: set_splits)
  moreover have "startswith w (w @ post)" by (auto simp: startswith_append)
  ultimately show "occurs_as_word w s"
    using pp(2,3) by (auto simp: occurs_as_word_def list_ex_iff)
qed

subsection \<open>The matcher on a word between two boundaries\<close>

lemma lit_Cons: "lit (c # w) = Seq (Sym [Ch c]) (lit w)"
  by (simp add: lit_def)

lemma lit_Nil: "lit [] = Eps"
  by (simp add: lit_def)

lemma matches_lit:
  "matches False (lit w) (p, s, g) =
     (if startswith w s then [(if w = [] then p else Some (last w), drop (length w) s, g)] else [])"
proof (induction w arbitrary: p s)
  case Nil
  then show ?case by (simp add: lit_Nil)
next
  case (Cons c w)
  note IH = Cons.IH
  show ?case
  proof (cases s)
    case Nil
    then show ?thesis by (simp add: lit_Cons)
  next
    case (Cons x xs)
    then show ?thesis
      by (simp add: lit_Cons in_class_def IH)
  qed
qed

lemma matches_word_re:
  "w \<noteq> [] \<Longrightarrow>
   matches False (word_re w) (p, s, g) =
     (if at_boundary p s \<and> startswith w s \<and> at_boundary (Some (last w)) (drop (length w) s)
      then [(Some (last w), drop (length w) s, g)] else [])"
  by (simp add: word_re_def cat_def matches_lit)

lemma boundary_before:
  "isword (hd w) \<Longrightarrow> w \<noteq> [] \<Longrightarrow>
   at_boundary p (w @ post) \<longleftrightarrow> (case p of None \<Rightarrow> True | Some c \<Rightarrow> \<not> isword c)"
  by (cases w) (auto simp: at_boundary_def split: option.splits)

lemma boundary_after:
  "isword c \<Longrightarrow> at_boundary (Some c) post \<longleftrightarrow> (post = [] \<or> \<not> isword (hd post))"
  by (cases post) (auto simp: at_boundary_def)

lemma search_from_word:
  assumes w: "w \<noteq> []" "isword (hd w)" "isword (last w)"
  shows "search_from False (word_re w) i p s \<noteq> None \<longleftrightarrow>
     (\<exists>pre post. s = pre @ w @ post \<and>
        (case (if pre = [] then p else Some (last pre)) of None \<Rightarrow> True | Some c \<Rightarrow> \<not> isword c) \<and>
        (post = [] \<or> \<not> isword (hd post)))"
proof (induction s arbitrary: i p)
  case Nil
  from w(1) have "\<not> startswith w []" by (cases w) simp_all
  with w(1) show ?case
    by (subst search_from.simps) (simp add: matches_word_re del: search_from.simps)
next
  case (Cons c cs)
  let ?here = "at_boundary p (c # cs) \<and> startswith w (c # cs) \<and>
               at_boundary (Some (last w)) (drop (length w) (c # cs))"
  have here: "?here \<longleftrightarrow> (\<exists>post. c # cs = w @ post \<and>
        (case p of None \<Rightarrow> True | Some c \<Rightarrow> \<not> isword c) \<and> (post = [] \<or> \<not> isword (hd post)))"
  proof
    assume h: ?here
    then obtain post where post: "c # cs = w @ post" by (auto simp: startswith_append)
    with h w show "\<exists>post. c # cs = w @ post \<and>
        (case p of None \<Rightarrow> True | Some c \<Rightarrow> \<not> isword c) \<and> (post = [] \<or> \<not> isword (hd post))"
      using boundary_before [of w p post] boundary_after [of "last w" post] by auto
  next
    assume "\<exists>post. c # cs = w @ post \<and>
        (case p of None \<Rightarrow> True | Some c \<Rightarrow> \<not> isword c) \<and> (post = [] \<or> \<not> isword (hd post))"
    then obtain post where post: "c # cs = w @ post"
        "case p of None \<Rightarrow> True | Some c \<Rightarrow> \<not> isword c" "post = [] \<or> \<not> isword (hd post)" by blast
    with w show ?here
      using boundary_before [of w p post] boundary_after [of "last w" post]
      by (auto simp: startswith_append)
  qed
  have later: "(\<exists>pre post. cs = pre @ w @ post \<and>
        (case (if pre = [] then Some c else Some (last pre)) of None \<Rightarrow> True | Some c \<Rightarrow> \<not> isword c) \<and>
        (post = [] \<or> \<not> isword (hd post))) \<longleftrightarrow>
     (\<exists>pre post. pre \<noteq> [] \<and> c # cs = pre @ w @ post \<and> \<not> isword (last pre) \<and>
        (post = [] \<or> \<not> isword (hd post)))" (is "?L \<longleftrightarrow> ?R")
  proof
    assume ?L
    then obtain pre post where a: "cs = pre @ w @ post"
        "case (if pre = [] then Some c else Some (last pre)) of None \<Rightarrow> True | Some c \<Rightarrow> \<not> isword c"
        "post = [] \<or> \<not> isword (hd post)" by blast
    then show ?R
      by (intro exI [of _ "c # pre"] exI [of _ post]) (auto split: if_splits)
  next
    assume ?R
    then obtain pre post where a: "pre \<noteq> []" "c # cs = pre @ w @ post" "\<not> isword (last pre)"
        "post = [] \<or> \<not> isword (hd post)" by blast
    from a(1,2) obtain pre' where p': "pre = c # pre'" "cs = pre' @ w @ post"
      by (cases pre) auto
    with a show ?L
      by (intro exI [of _ pre'] exI [of _ post]) (auto split: if_splits)
  qed
  have m: "matches False (word_re w) (p, c # cs, []) =
      (if ?here then [(Some (last w), drop (length w) (c # cs), [])] else [])"
    by (rule matches_word_re [OF w(1)])
  show ?case
  proof (cases ?here)
    case True
    with m have "matches False (word_re w) (p, c # cs, []) =
        [(Some (last w), drop (length w) (c # cs), [])]"
      by simp
    then have "search_from False (word_re w) i p (c # cs) \<noteq> None"
      by (subst search_from.simps) (simp del: search_from.simps)
    moreover from True here have "\<exists>pre post. c # cs = pre @ w @ post \<and>
        (case (if pre = [] then p else Some (last pre)) of None \<Rightarrow> True | Some c \<Rightarrow> \<not> isword c) \<and>
        (post = [] \<or> \<not> isword (hd post))"
      by (metis append_Nil)
    ultimately show ?thesis by simp
  next
    case False
    with m have "matches False (word_re w) (p, c # cs, []) = []"
      by simp
    then have "search_from False (word_re w) i p (c # cs) =
        search_from False (word_re w) (Suc i) (Some c) cs"
      by (subst search_from.simps) (simp del: search_from.simps)
    moreover have "(\<exists>pre post. c # cs = pre @ w @ post \<and>
        (case (if pre = [] then p else Some (last pre)) of None \<Rightarrow> True | Some c \<Rightarrow> \<not> isword c) \<and>
        (post = [] \<or> \<not> isword (hd post))) \<longleftrightarrow>
      (\<exists>pre post. pre \<noteq> [] \<and> c # cs = pre @ w @ post \<and> \<not> isword (last pre) \<and>
        (post = [] \<or> \<not> isword (hd post)))" (is "?A \<longleftrightarrow> ?B")
    proof
      assume ?A
      then obtain pre post where a: "c # cs = pre @ w @ post"
        "case (if pre = [] then p else Some (last pre)) of None \<Rightarrow> True | Some c \<Rightarrow> \<not> isword c"
        "post = [] \<or> \<not> isword (hd post)" by blast
      have "pre \<noteq> []"
      proof
        assume "pre = []"
        with a have "\<exists>post. c # cs = w @ post \<and>
          (case p of None \<Rightarrow> True | Some c \<Rightarrow> \<not> isword c) \<and> (post = [] \<or> \<not> isword (hd post))"
          by auto
        with here False show False by blast
      qed
      with a show ?B by (intro exI [of _ pre] exI [of _ post]) auto
    next
      assume ?B
      then show ?A by auto
    qed
    ultimately show ?thesis using Cons.IH [of "Suc i" "Some c"] later by simp
  qed
qed

lemma re_search_word:
  assumes "w \<noteq> []" "isword (hd w)" "isword (last w)"
  shows "re_search False (word_re w) s \<noteq> None \<longleftrightarrow> occurs_as_word w s"
proof -
  have "(\<exists>pre post. s = pre @ w @ post \<and>
        (case (if pre = [] then None else Some (last pre)) of None \<Rightarrow> True | Some c \<Rightarrow> \<not> isword c) \<and>
        (post = [] \<or> \<not> isword (hd post))) \<longleftrightarrow>
     (\<exists>pre post. s = pre @ w @ post \<and> (pre = [] \<or> \<not> isword (last pre)) \<and>
                 (post = [] \<or> \<not> isword (hd post)))"
    by (intro ex_cong1) auto
  with search_from_word [OF assms, of 0 None s] show ?thesis
    by (simp add: re_search_def occurs_as_word_iff)
qed

subsection \<open>The colour extractor\<close>

lemma colours_are_words: "\<forall>colour \<in> set colours. colour \<noteq> [] \<and> isword (hd colour) \<and> isword (last colour)"
  by code_simp

lemma find_colours_word:
  "find (\<lambda>colour. re_search False (word_re colour) s \<noteq> None) colours =
   find (\<lambda>colour. occurs_as_word colour s) colours"
proof (rule find_cong)
  show "colours = colours" ..
next
  fix colour
  assume "colour \<in> set colours"
  with colours_are_words have "colour \<noteq> []" "isword (hd colour)" "isword (last colour)"
    by blast+
  then show "(re_search False (word_re colour) s \<noteq> None) = occurs_as_word colour s"
    by (rule re_search_word)
qed

lemma find_in_list: "find P xs = Some x \<Longrightarrow> x \<in> set xs"
  by (auto simp: find_Some_iff)

lemma find_None_list: "find P xs = None \<longleftrightarrow> (\<forall>x \<in> set xs. \<not> P x)"
  by (induction xs) auto

lemma labelled_colour_vocabulary:
  "labelled_colour patterns s = Inr (Some c) \<Longrightarrow> \<exists>colour \<in> set colours. c = capitalize colour"
proof (induction patterns)
  case Nil
  then show ?case by simp
next
  case (Cons re patterns)
  show ?case
  proof (cases "re_search True re s")
    case None
    with Cons show ?thesis by simp
  next
    case (Some m)
    show ?thesis
    proof (cases "group1_strip m")
      case (Inl e)
      with Some Cons.prems show ?thesis by simp
    next
      case (Inr stripped)
      show ?thesis
      proof (cases "find (\<lambda>colour. contains colour (lower stripped)) colours")
        case None
        with Some Inr Cons show ?thesis by (simp add: Let_def)
      next
        case found: (Some colour)
        with Some Inr Cons.prems have "c = capitalize colour" by (simp add: Let_def)
        with find_in_list [OF found] show ?thesis by blast
      qed
    qed
  qed
qed

lemma labelled_colour_unmatched:
  "\<forall>re \<in> set patterns. re_search True re s = None \<Longrightarrow> labelled_colour patterns s = Inr None"
  by (induction patterns) simp_all

lemma rgb_colour_vocabulary:
  "rgb_colour t = Some c \<Longrightarrow> \<exists>colour \<in> set colours. c = capitalize colour"
  by (auto simp: rgb_colour_def Let_def split: option.splits dest: find_in_list)

text \<open>
  The extractor either returns a capitalised colour of the vocabulary, or none of the
  labelled forms gave one and the value is that of the scan of the lower-cased text.
\<close>

lemma extract_colour_cases:
  "(\<exists>colour \<in> set colours. extract_colour t soup title = Inr (Some (capitalize colour))) \<or>
   (labelled_colour colour_patterns (title @ '' '' @ t) = Inr None \<and> rgb_colour t = None \<and>
    extract_colour t soup title =
      Inr (map_option capitalize
             (find (\<lambda>colour. occurs_as_word colour (lower (title @ '' '' @ t))) colours)))"
proof -
  obtain v where v: "labelled_colour colour_patterns (title @ '' '' @ t) = Inr v"
    using labelled_colour_returns [OF colour_patterns_group] by blast
  show ?thesis
  proof (cases v)
    case (Some c)
    with v labelled_colour_vocabulary obtain colour where "colour \<in> set colours" "c = capitalize colour"
      by blast
    with v Some show ?thesis by (auto simp: extract_colour_def)
  next
    case None
    show ?thesis
    proof (cases "rgb_colour t")
      case (Some c)
      with rgb_colour_vocabulary obtain colour where "colour \<in> set colours" "c = capitalize colour"
        by blast
      with v None Some show ?thesis by (auto simp: extract_colour_def)
    next
      case rgb: None
      with v None show ?thesis
        by (simp add: extract_colour_def Let_def find_colours_word del: not_None_eq)
    qed
  qed
qed

text \<open>Lower-casing keeps a whole-word occurrence of a lower-case word.\<close>

lemma isword_lower_char: "isword (lower_char c) = isword c"
proof (cases c)
  case (Char b0 b1 b2 b3 b4 b5 b6 b7)
  show ?thesis
    unfolding Char
    by (cases b0; cases b1; cases b2; cases b3; cases b4; cases b5; cases b6; cases b7;
        simp add: isword_code lower_char_code isupper_code islower_code isdigit_code)
qed

lemma occurs_as_word_lower:
  assumes "occurs_as_word w s" "lower w = w"
  shows "occurs_as_word w (lower s)"
proof -
  from assms(1) obtain pre post where
    s: "s = pre @ w @ post" and b: "pre = [] \<or> \<not> isword (last pre)"
    and a: "post = [] \<or> \<not> isword (hd post)"
    unfolding occurs_as_word_iff by blast
  from s assms(2) have "lower s = lower pre @ w @ lower post"
    by (simp add: lower_def)
  moreover from b have "lower pre = [] \<or> \<not> isword (last (lower pre))"
    by (auto simp: lower_def last_map isword_lower_char)
  moreover from a have "lower post = [] \<or> \<not> isword (hd (lower post))"
    by (auto simp: lower_def hd_map isword_lower_char)
  ultimately show ?thesis
    unfolding occurs_as_word_iff by blast
qed

lemma colours_are_lower: "\<forall>colour \<in> set colours. lower colour = colour"
  by code_simp

text \<open>
  Claim C5. Whenever a colour of the vocabulary occurs as a whole word in the title, a
  space and the page text, as written or after lower-casing, the colour extractor returns
  a colour of the vocabulary, capitalised; it neither raises nor returns \<open>None\<close>. When none
  of the three labelled patterns matches the combined text and the RGB label does not match
  the page text, the value is the first colour, in the order of the vocabulary list, that
  occurs as a whole word in the lower-cased combined text.
\<close>

theorem colour_fallback:
  "((\<exists>colour \<in> set colours. occurs_as_word colour (title @ '' '' @ text) \<or>
                             occurs_as_word colour (lower (title @ '' '' @ text))) \<longrightarrow>
      (\<exists>colour \<in> set colours. extract_colour text soup title = Inr (Some (capitalize colour)))) \<and>
   ((\<forall>pattern \<in> set colour_patterns. re_search True pattern (title @ '' '' @ text) = None) \<and>
    re_search True rgb_pattern text = None \<longrightarrow>
      extract_colour text soup title =
        Inr (map_option capitalize
               (find (\<lambda>colour. occurs_as_word colour (lower (title @ '' '' @ text))) colours)))"
proof (intro conjI impI)
  assume "\<exists>colour \<in> set colours. occurs_as_word colour (title @ '' '' @ text) \<or>
                             occurs_as_word colour (lower (title @ '' '' @ text))"
  with colours_are_lower occurs_as_word_lower
  have occ: "\<exists>colour \<in> set colours. occurs_as_word colour (lower (title @ '' '' @ text))"
    by blast
  from extract_colour_cases [of "text" soup title]
  show "\<exists>colour \<in> set colours. extract_colour text soup title = Inr (Some (capitalize colour))"
  proof
    assume "\<exists>colour \<in> set colours. extract_colour text soup title = Inr (Some (capitalize colour))"
    then show ?thesis .
  next
    assume f: "labelled_colour colour_patterns (title @ '' '' @ text) = Inr None \<and> rgb_colour text = None \<and>
      extract_colour text soup title =
        Inr (map_option capitalize
               (find (\<lambda>colour. occurs_as_word colour (lower (title @ '' '' @ text))) colours))"
    from occ have "find (\<lambda>colour. occurs_as_word colour (lower (title @ '' '' @ text))) colours \<noteq> None"
      by (simp add: find_None_list)
    then obtain colour where
      c: "find (\<lambda>colour. occurs_as_word colour (lower (title @ '' '' @ text))) colours = Some colour"
      by blast
    with f find_in_list [OF c] show ?thesis by auto
  qed
next
  assume n: "(\<forall>pattern \<in> set colour_patterns. re_search True pattern (title @ '' '' @ text) = None) \<and>
    re_search True rgb_pattern text = None"
  then have "labelled_colour colour_patterns (title @ '' '' @ text) = Inr None"
    by (simp add: labelled_colour_unmatched)
  moreover from n have "rgb_colour text = None" by (simp add: rgb_colour_def)
  ultimately show "extract_colour text soup title =
        Inr (map_option capitalize
               (find (\<lambda>colour. occurs_as_word colour (lower (title @ '' '' @ text))) colours))"
    by (simp add: extract_colour_def Let_def find_colours_word del: not_None_eq)
qed

definition bag_text :: string where
  "bag_text = ''A Red and Black bag''"

lemma bag_text_occurs:
  "list_ex (\<lambda>colour. occurs_as_word colour (''Bag'' @ '' '' @ bag_text) \<or>
                      occurs_as_word colour (lower (''Bag'' @ '' '' @ bag_text))) colours"
  by code_simp

lemma bag_text_red: "occurs_as_word ''red'' (lower (''Bag'' @ '' '' @ bag_text))"
  by code_simp

lemma bag_text_unlabelled:
  "map (\<lambda>pattern. re_search True pattern (''Bag'' @ '' '' @ bag_text)) colour_patterns = [None, None, None]"
  by code_simp

lemma bag_text_no_rgb: "re_search True rgb_pattern bag_text = None"
  by code_simp

lemma bag_text_first:
  "map_option capitalize (find (\<lambda>colour. occurs_as_word colour (lower (''Bag'' @ '' '' @ bag_text))) colours) =
     Some ''Black''"
  by code_simp

text \<open>
  A text where \<open>red\<close> stands before \<open>black\<close>: the extractor answers \<open>Black\<close>, the earlier
  entry of the vocabulary.
\<close>

theorem colour_fallback_witness:
  "list_ex (\<lambda>colour. occurs_as_word colour (''Bag'' @ '' '' @ bag_text) \<or>
                      occurs_as_word colour (lower (''Bag'' @ '' '' @ bag_text))) colours \<and>
   map (\<lambda>pattern. re_search True pattern (''Bag'' @ '' '' @ bag_text)) colour_patterns = [None, None, None] \<and>
   re_search True rgb_pattern bag_text = None \<and>
   occurs_as_word ''red'' (lower (''Bag'' @ '' '' @ bag_text)) \<and>
   extract_colour bag_text (Tag ''[document]'' [NavigableString bag_text]) ''Bag'' = Inr (Some ''Black'')"
proof -
  from bag_text_unlabelled
  have u: "\<forall>pattern \<in> set colour_patterns. re_search True pattern (''Bag'' @ '' '' @ bag_text) = None"
    by (simp add: colour_patterns_def)
  from colour_fallback [of "''Bag''" bag_text "Tag ''[document]'' [NavigableString bag_text]"] u bag_text_no_rgb
  have "extract_colour bag_text (Tag ''[document]'' [NavigableString bag_text]) ''Bag'' =
      Inr (map_option capitalize
             (find (\<lambda>colour. occurs_as_word colour (lower (''Bag'' @ '' '' @ bag_text))) colours))"
    by blast
  then have "extract_colour bag_text (Tag ''[document]'' [NavigableString bag_text]) ''Bag'' = Inr (Some ''Black'')"
    by (simp only: bag_text_first)
  with bag_text_occurs bag_text_unlabelled bag_text_no_rgb bag_text_red show ?thesis
    by (intro conjI)
qed


end
